theory Spec2Isabelle
  imports Complex_Main "HOL-Library.AList"
begin

section \<open>Values, errors and two-component arrays\<close>

text \<open>
  A layer cell is a C \<^verbatim>\<open>float\<close>. The code only copies cells, writes \<^verbatim>\<open>NAN\<close> into them and
  asks \<^verbatim>\<open>isfinite\<close>, so a cell is a finite number, an infinity (\<open>Infinite True\<close> is the
  negative one) or the not-a-number sentinel. The same three cases describe the result of
  an operation on \<^verbatim>\<open>double\<close>. A \<^verbatim>\<open>double\<close> that the state holds (a coordinate, a length,
  the resolution) is a real number, and an \<^verbatim>\<open>int\<close> that the state holds is an integer; the
  conversion to \<^verbatim>\<open>int\<close> checks the range of the machine type.
\<close>

datatype cfloat = Finite real | Infinite bool | NaN

fun isfinite :: "cfloat \<Rightarrow> bool" where
  "isfinite (Finite x) = True"
| "isfinite (Infinite s) = False"
| "isfinite NaN = False"

text \<open>
  \<^verbatim>\<open>std::out_of_range\<close> is what the class throws for an unknown layer or position;
  an \<^verbatim>\<open>assert\<close> of the class or of the matrix library that fails is the second error.
  \<open>UndefinedBehaviour\<close> is a conversion of a \<^verbatim>\<open>double\<close> to \<^verbatim>\<open>int\<close> whose value the
  type \<^verbatim>\<open>int\<close> cannot represent. \<open>NotFinite\<close> marks a \<^verbatim>\<open>double\<close> operation that
  overflows where the state would have to hold the result: the source stores the infinity,
  the state here holds finite numbers only.
\<close>

datatype error = OutOfRange | AssertionFailure | UndefinedBehaviour | NotFinite

type_synonym Position = "real \<times> real"
type_synonym Length = "real \<times> real"
type_synonym Index = "int \<times> int"
type_synonym Size = "int \<times> int"
type_synonym Time = nat

text \<open>Component \<open>i\<close> of a two-component array, \<^verbatim>\<open>v(i)\<close>.\<close>

definition comp2 :: "'a \<times> 'a \<Rightarrow> nat \<Rightarrow> 'a" where
  "comp2 v i = (if i = 0 then fst v else snd v)"

text \<open>\<^verbatim>\<open>round\<close> of the C library: to the nearest integer, halfway cases away from zero.\<close>

definition c_round :: "real \<Rightarrow> int" where
  "c_round x = (if 0 \<le> x then \<lfloor>x + 1 / 2\<rfloor> else \<lceil>x - 1 / 2\<rceil>)"

text \<open>
  Arithmetic on \<^verbatim>\<open>double\<close> (IEEE 754 binary64, round to nearest, ties to even).
  \<open>toDouble x\<close> is the \<^verbatim>\<open>double\<close> that an operation with the exact result \<open>x\<close> returns.
  With \<open>e\<close> the exponent of \<open>x\<close>, that is \<open>2 ^ e \<le> |x| < 2 ^ (e + 1)\<close>, and at least
  \<open>-1022\<close>, the unit in the last place is \<open>2 ^ (e - 52)\<close>; \<open>x\<close> is rounded to a multiple of
  it, and a result of magnitude \<open>2 ^ 1024\<close> or more is an infinity.
\<close>

definition roundHalfEven :: "real \<Rightarrow> int" where
  "roundHalfEven y =
     (let f = \<lfloor>y\<rfloor>
      in if y - real_of_int f < 1 / 2 then f
         else if 1 / 2 < y - real_of_int f then f + 1
         else if even f then f else f + 1)"

definition toDouble :: "real \<Rightarrow> cfloat" where
  "toDouble x =
     (if x = 0 then Finite 0
      else
        let e = max \<lfloor>log 2 \<bar>x\<bar>\<rfloor> (- 1022);
            ulp = 2 powr (real_of_int e - 52);
            y = real_of_int (roundHalfEven (x / ulp)) * ulp
        in if 2 ^ 1024 \<le> \<bar>y\<bar> then Infinite (x < 0) else Finite y)"

text \<open>The quotient and the product of two finite \<^verbatim>\<open>double\<close>s.\<close>

definition double_div :: "real \<Rightarrow> real \<Rightarrow> cfloat" where
  "double_div a b =
     (if b = 0 then (if a = 0 then NaN else Infinite (a < 0)) else toDouble (a / b))"

definition double_mul :: "real \<Rightarrow> real \<Rightarrow> cfloat" where
  "double_mul a b = toDouble (a * b)"

text \<open>
  \<^verbatim>\<open>static_cast<int>(d)\<close> for the whole number \<open>d\<close> that \<^verbatim>\<open>round\<close> returns: the behaviour
  is undefined when \<open>d\<close> is outside the range of a 32-bit \<^verbatim>\<open>int\<close>.
\<close>

definition static_cast_int :: "int \<Rightarrow> error + int" where
  "static_cast_int d =
     (if - 2147483648 \<le> d \<and> d \<le> 2147483647 then Inr d else Inl UndefinedBehaviour)"

text \<open>
  \<^verbatim>\<open>static_cast<int>(round(a / b))\<close>. \<^verbatim>\<open>round\<close> of an infinity or of a not-a-number is
  that value, which \<^verbatim>\<open>int\<close> cannot represent.
\<close>

definition roundedQuotient :: "real \<Rightarrow> real \<Rightarrow> error + int" where
  "roundedQuotient a b =
     (case double_div a b of
        Finite q \<Rightarrow> static_cast_int (c_round q)
      | Infinite s \<Rightarrow> Inl UndefinedBehaviour
      | NaN \<Rightarrow> Inl UndefinedBehaviour)"

section \<open>Dense matrices\<close>

text \<open>
  A dynamically sized matrix of the linear-algebra library: its dimensions and its
  coefficients. A coefficient is only ever read or written inside the dimensions; an access
  outside fails the library's assertion.
\<close>

record Matrix =
  rows :: int
  cols :: int
  coeff :: "int \<Rightarrow> int \<Rightarrow> cfloat"

text \<open>\<^verbatim>\<open>Matrix()\<close>: the empty matrix. It has no coefficient to read.\<close>

definition Matrix0 :: Matrix where
  "Matrix0 = \<lparr>rows = 0, cols = 0, coeff = (\<lambda>i j. NaN)\<rparr>"

text \<open>\<^verbatim>\<open>Matrix::Constant(rows, cols, value)\<close>.\<close>

definition Constant :: "int \<Rightarrow> int \<Rightarrow> cfloat \<Rightarrow> Matrix" where
  "Constant r c v = \<lparr>rows = r, cols = c, coeff = (\<lambda>i j. v)\<rparr>"

text \<open>\<^verbatim>\<open>m.setConstant(value)\<close>: every coefficient becomes \<open>value\<close>.\<close>

definition setConstant :: "Matrix \<Rightarrow> cfloat \<Rightarrow> Matrix" where
  "setConstant m v = m\<lparr>coeff := (\<lambda>i j. v)\<rparr>"

text \<open>
  \<^verbatim>\<open>m.resize(rows, cols)\<close>: the dimensions change; the library leaves the coefficients
  uninitialised, and the only caller overwrites all of them at once.
\<close>

definition resizeMatrix :: "Matrix \<Rightarrow> int \<Rightarrow> int \<Rightarrow> Matrix" where
  "resizeMatrix m r c = m\<lparr>rows := r, cols := c\<rparr>"

text \<open>\<^verbatim>\<open>m(i, j)\<close>.\<close>

definition coeffAt :: "Matrix \<Rightarrow> int \<Rightarrow> int \<Rightarrow> error + cfloat" where
  "coeffAt m i j =
     (if 0 \<le> i \<and> i < rows m \<and> 0 \<le> j \<and> j < cols m then Inr (coeff m i j)
      else Inl AssertionFailure)"

text \<open>
  \<^verbatim>\<open>m.block(startRow, startCol, blockRows, blockCols)\<close> is defined when the block lies
  inside the matrix.
\<close>

definition blockInside :: "Matrix \<Rightarrow> int \<Rightarrow> int \<Rightarrow> int \<Rightarrow> int \<Rightarrow> bool" where
  "blockInside m r c nr nc \<longleftrightarrow>
     0 \<le> r \<and> 0 \<le> nr \<and> r + nr \<le> rows m \<and> 0 \<le> c \<and> 0 \<le> nc \<and> c + nc \<le> cols m"

definition inBlock :: "int \<Rightarrow> int \<Rightarrow> int \<Rightarrow> int \<Rightarrow> int \<Rightarrow> int \<Rightarrow> bool" where
  "inBlock r c nr nc i j \<longleftrightarrow> r \<le> i \<and> i < r + nr \<and> c \<le> j \<and> j < c + nc"

text \<open>\<^verbatim>\<open>m.block(r, c, nr, nc).setConstant(value)\<close>.\<close>

definition blockSetConstant ::
  "Matrix \<Rightarrow> int \<Rightarrow> int \<Rightarrow> int \<Rightarrow> int \<Rightarrow> cfloat \<Rightarrow> error + Matrix" where
  "blockSetConstant m r c nr nc v =
     (if blockInside m r c nr nc
      then Inr (m\<lparr>coeff := (\<lambda>i j. if inBlock r c nr nc i j then v else coeff m i j)\<rparr>)
      else Inl AssertionFailure)"

text \<open>
  \<^verbatim>\<open>dst.block(dr, dc, nr, nc) = src.block(sr, sc, nr, nc)\<close>: both blocks must lie inside
  their matrices.
\<close>

definition blockAssign ::
  "Matrix \<Rightarrow> int \<Rightarrow> int \<Rightarrow> Matrix \<Rightarrow> int \<Rightarrow> int \<Rightarrow> int \<Rightarrow> int \<Rightarrow> error + Matrix" where
  "blockAssign dst dr dc src sr sc nr nc =
     (if blockInside dst dr dc nr nc \<and> blockInside src sr sc nr nc
      then Inr (dst\<lparr>coeff := (\<lambda>i j. if inBlock dr dc nr nc i j
                                     then coeff src (i - dr + sr) (j - dc + sc)
                                     else coeff dst i j)\<rparr>)
      else Inl AssertionFailure)"

section \<open>The grid map\<close>

text \<open>
  The members of \<^verbatim>\<open>GridMap\<close>; a member \<^verbatim>\<open>x_\<close> of the class is the field \<open>x_m\<close>
  here. \<open>data_m\<close> is the \<^verbatim>\<open>unordered_map\<close> from layer names to
  matrices, kept as an association list with one entry per key because the class iterates
  over it; the order of the entries stands for the container's iteration order.
\<close>

record GridMap =
  frameId_m :: string
  timestamp_m :: Time
  data_m :: "(string \<times> Matrix) list"
  layers_m :: "string list"
  basicLayers_m :: "string list"
  length_m :: Length
  position_m :: Position
  resolution_m :: real
  size_m :: Size
  startIndex_m :: Index

text \<open>\<^verbatim>\<open>data_.insert(pair)\<close>: a key already present keeps its entry.\<close>

definition insertData :: "(string \<times> Matrix) list \<Rightarrow> string \<times> Matrix \<Rightarrow> (string \<times> Matrix) list" where
  "insertData d kv = (if fst kv \<in> fst ` set d then d else d @ [kv])"

text \<open>The constructor \<^verbatim>\<open>GridMap(layers)\<close>.\<close>

definition newGridMap :: "string list \<Rightarrow> GridMap" where
  "newGridMap layers =
     \<lparr>frameId_m = [], timestamp_m = 0,
      data_m = foldl insertData [] (map (\<lambda>layer. (layer, Matrix0)) layers),
      layers_m = layers, basicLayers_m = [],
      length_m = (0, 0), position_m = (0, 0), resolution_m = 0,
      size_m = (0, 0), startIndex_m = (0, 0)\<rparr>"

definition getSize :: "GridMap \<Rightarrow> Size" where
  "getSize g = size_m g"

definition setBasicLayers :: "GridMap \<Rightarrow> string list \<Rightarrow> GridMap" where
  "setBasicLayers g basicLayers = g\<lparr>basicLayers_m := basicLayers\<rparr>"

definition setTimestamp :: "GridMap \<Rightarrow> Time \<Rightarrow> GridMap" where
  "setTimestamp g timestamp = g\<lparr>timestamp_m := timestamp\<rparr>"

definition setFrameId :: "GridMap \<Rightarrow> string \<Rightarrow> GridMap" where
  "setFrameId g frameId = g\<lparr>frameId_m := frameId\<rparr>"

definition setStartIndex :: "GridMap \<Rightarrow> Index \<Rightarrow> GridMap" where
  "setStartIndex g startIndex = g\<lparr>startIndex_m := startIndex\<rparr>"

definition exists :: "GridMap \<Rightarrow> string \<Rightarrow> bool" where
  "exists g layer \<longleftrightarrow> map_of (data_m g) layer \<noteq> None"

text \<open>\<^verbatim>\<open>resize(size)\<close> and \<^verbatim>\<open>clearAll()\<close> run over every entry of \<open>data_m\<close>.\<close>

definition resize :: "GridMap \<Rightarrow> Size \<Rightarrow> GridMap" where
  "resize g sz =
     (let g1 = g\<lparr>size_m := sz\<rparr>
      in g1\<lparr>data_m := map (\<lambda>(layer, m). (layer, resizeMatrix m (fst (size_m g1)) (snd (size_m g1))))
                         (data_m g1)\<rparr>)"

definition clearAll :: "GridMap \<Rightarrow> GridMap" where
  "clearAll g = g\<lparr>data_m := map (\<lambda>(layer, m). (layer, setConstant m NaN)) (data_m g)\<rparr>"

text \<open>\<^verbatim>\<open>clear(layer)\<close>: \<^verbatim>\<open>data_.at(layer)\<close> throws for an unknown layer.\<close>

definition clear :: "GridMap \<Rightarrow> string \<Rightarrow> error + GridMap" where
  "clear g layer =
     (case map_of (data_m g) layer of
        None \<Rightarrow> Inl OutOfRange
      | Some m \<Rightarrow> Inr (g\<lparr>data_m := AList.update layer (setConstant m NaN) (data_m g)\<rparr>))"

fun clearLayers :: "GridMap \<Rightarrow> string list \<Rightarrow> error + GridMap" where
  "clearLayers g [] = Inr g"
| "clearLayers g (layer # ls) =
     (case clear g layer of Inl e \<Rightarrow> Inl e | Inr g' \<Rightarrow> clearLayers g' ls)"

definition clearBasic :: "GridMap \<Rightarrow> error + GridMap" where
  "clearBasic g = clearLayers g (basicLayers_m g)"

text \<open>
  \<^verbatim>\<open>setGeometry(length, resolution, position)\<close>. The three assertions come first; the
  statements after them are kept in the order of the source. The two sizes are
  \<^verbatim>\<open>static_cast<int>(round(length(i) / resolution))\<close>, and the stored length is the
  product \<^verbatim>\<open>size_.cast<double>() * resolution_\<close>, an \<^verbatim>\<open>int\<close> being a \<^verbatim>\<open>double\<close> exactly.
\<close>

definition setGeometry :: "GridMap \<Rightarrow> Length \<Rightarrow> real \<Rightarrow> Position \<Rightarrow> error + GridMap" where
  "setGeometry g len resolution position =
     (if \<not> fst len > 0 then Inl AssertionFailure
      else if \<not> snd len > 0 then Inl AssertionFailure
      else if \<not> resolution > 0 then Inl AssertionFailure
      else
        (case roundedQuotient (fst len) resolution of
           Inl e \<Rightarrow> Inl e
         | Inr size0 \<Rightarrow>
             (case roundedQuotient (snd len) resolution of
                Inl e \<Rightarrow> Inl e
              | Inr size1 \<Rightarrow>
                  let sz = (size0, size1);
                      g1 = clearAll (resize g sz);
                      g2 = g1\<lparr>resolution_m := resolution\<rparr>
                  in (case (double_mul (real_of_int (fst (size_m g2))) (resolution_m g2),
                            double_mul (real_of_int (snd (size_m g2))) (resolution_m g2)) of
                        (Finite length0, Finite length1) \<Rightarrow>
                          let g3 = g2\<lparr>length_m := (length0, length1)\<rparr>;
                              g4 = g3\<lparr>position_m := position\<rparr>
                          in Inr (g4\<lparr>startIndex_m := (0, 0)\<rparr>)
                      | _ \<Rightarrow> Inl NotFinite))))"

text \<open>
  \<^verbatim>\<open>add(layer, data)\<close> and \<^verbatim>\<open>add(layer, value)\<close>; the second builds the constant matrix
  and calls the first.
\<close>

definition add_data :: "GridMap \<Rightarrow> string \<Rightarrow> Matrix \<Rightarrow> error + GridMap" where
  "add_data g layer m =
     (if fst (size_m g) \<noteq> rows m then Inl AssertionFailure
      else if snd (size_m g) \<noteq> cols m then Inl AssertionFailure
      else if exists g layer then Inr (g\<lparr>data_m := AList.update layer m (data_m g)\<rparr>)
      else Inr (g\<lparr>data_m := insertData (data_m g) (layer, m), layers_m := layers_m g @ [layer]\<rparr>))"

definition add_value :: "GridMap \<Rightarrow> string \<Rightarrow> cfloat \<Rightarrow> error + GridMap" where
  "add_value g layer v = add_data g layer (Constant (fst (size_m g)) (snd (size_m g)) v)"

text \<open>
  \<^verbatim>\<open>erase(layer)\<close>: the entry of \<open>data_m\<close> goes first, then the first occurrence of the name
  in \<open>layers_m\<close> and in \<open>basicLayers_m\<close>. The result is the returned flag and the new state.
\<close>

definition erase :: "GridMap \<Rightarrow> string \<Rightarrow> bool \<times> GridMap" where
  "erase g layer =
     (if map_of (data_m g) layer = None then (False, g)
      else
        let g1 = g\<lparr>data_m := AList.delete layer (data_m g)\<rparr>
        in if layer \<notin> set (layers_m g1) then (False, g1)
           else
             let g2 = g1\<lparr>layers_m := remove1 layer (layers_m g1)\<rparr>
             in (True, if layer \<in> set (basicLayers_m g2)
                       then g2\<lparr>basicLayers_m := remove1 layer (basicLayers_m g2)\<rparr>
                       else g2))"

text \<open>\<^verbatim>\<open>at(layer, index)\<close>, named \<open>atIndex\<close> here: unknown layers throw, the matrix access is checked.\<close>

definition atIndex :: "GridMap \<Rightarrow> string \<Rightarrow> Index \<Rightarrow> error + cfloat" where
  "atIndex g layer index =
     (case map_of (data_m g) layer of
        None \<Rightarrow> Inl OutOfRange
      | Some m \<Rightarrow> coeffAt m (fst index) (snd index))"

text \<open>
  The three overloads of \<^verbatim>\<open>isValid\<close>: for one layer, for a list of layers and, with the
  basic layers as that list, for an index alone.
\<close>

definition isValid_layer :: "GridMap \<Rightarrow> Index \<Rightarrow> string \<Rightarrow> error + bool" where
  "isValid_layer g index layer =
     (case atIndex g layer index of
        Inl e \<Rightarrow> Inl e
      | Inr v \<Rightarrow> if \<not> isfinite v then Inr False else Inr True)"

fun allFinite :: "GridMap \<Rightarrow> Index \<Rightarrow> string list \<Rightarrow> error + bool" where
  "allFinite g index [] = Inr True"
| "allFinite g index (layer # ls) =
     (case atIndex g layer index of
        Inl e \<Rightarrow> Inl e
      | Inr v \<Rightarrow> if \<not> isfinite v then Inr False else allFinite g index ls)"

definition isValid_layers :: "GridMap \<Rightarrow> Index \<Rightarrow> string list \<Rightarrow> error + bool" where
  "isValid_layers g index layers =
     (if layers = [] then Inr False else allFinite g index layers)"

definition isValid :: "GridMap \<Rightarrow> Index \<Rightarrow> error + bool" where
  "isValid g index = isValid_layers g index (basicLayers_m g)"

section \<open>Index helpers of the map-math library\<close>

text \<open>
  Modelled from the spec: \<^verbatim>\<open>getIndexShiftFromPositionShift\<close> of \<^verbatim>\<open>GridMapMath\<close>, which is
  not among the sources. The spec rounds the position delta to whole cells, per axis:
  \<^verbatim>\<open>indexShift = round(delta / resolution)\<close>.
\<close>

definition getIndexShiftFromPositionShift :: "Position \<Rightarrow> real \<Rightarrow> Index" where
  "getIndexShiftFromPositionShift positionShift resolution =
     (c_round (fst positionShift / resolution), c_round (snd positionShift / resolution))"

text \<open>
  Modelled from the spec: \<^verbatim>\<open>getPositionShiftFromIndexShift\<close> of \<^verbatim>\<open>GridMapMath\<close>, which is
  not among the sources: \<^verbatim>\<open>alignedDelta = indexShift * resolution\<close>.
\<close>

definition getPositionShiftFromIndexShift :: "Index \<Rightarrow> real \<Rightarrow> Position" where
  "getPositionShiftFromIndexShift indexShift resolution =
     (real_of_int (fst indexShift) * resolution, real_of_int (snd indexShift) * resolution)"

text \<open>
  Modelled from the spec: \<^verbatim>\<open>mapIndexWithinRange\<close> of \<^verbatim>\<open>GridMapMath\<close>, which is not among
  the sources. It is the spec's one helper that reduces an index into \<open>[0, size)\<close> by
  modular reduction; the second definition is its overload on index pairs.
\<close>

definition mapIndexWithinRange :: "int \<Rightarrow> int \<Rightarrow> int" where
  "mapIndexWithinRange index bufferSize = index mod bufferSize"

definition mapIndexWithinRange2 :: "Index \<Rightarrow> Size \<Rightarrow> Index" where
  "mapIndexWithinRange2 index bufferSize =
     (mapIndexWithinRange (fst index) (fst bufferSize),
      mapIndexWithinRange (snd index) (snd bufferSize))"

section \<open>Moving the map\<close>

text \<open>
  \<^verbatim>\<open>clearCols(index, nCols)\<close> and \<^verbatim>\<open>clearRows(index, nRows)\<close> run over the basic layers
  and set one block of each to \<^verbatim>\<open>NAN\<close>: \<^verbatim>\<open>block(index, 0, nCols, getSize()(1))\<close> and
  \<^verbatim>\<open>block(0, index, getSize()(0), nRows)\<close>. Both loops are \<open>clearBlockLoop\<close>; a basic
  layer without data throws out of \<^verbatim>\<open>data_.at(layer)\<close>. The arguments are
  \<^verbatim>\<open>unsigned int\<close> in the source and never negative at its call sites.
\<close>

definition clearBlockOfLayer ::
  "GridMap \<Rightarrow> string \<Rightarrow> int \<Rightarrow> int \<Rightarrow> int \<Rightarrow> int \<Rightarrow> error + GridMap" where
  "clearBlockOfLayer g layer r c nr nc =
     (case map_of (data_m g) layer of
        None \<Rightarrow> Inl OutOfRange
      | Some m \<Rightarrow>
          (case blockSetConstant m r c nr nc NaN of
             Inl e \<Rightarrow> Inl e
           | Inr m' \<Rightarrow> Inr (g\<lparr>data_m := AList.update layer m' (data_m g)\<rparr>)))"

fun clearBlockLoop ::
  "GridMap \<Rightarrow> string list \<Rightarrow> int \<Rightarrow> int \<Rightarrow> int \<Rightarrow> int \<Rightarrow> error + GridMap" where
  "clearBlockLoop g [] r c nr nc = Inr g"
| "clearBlockLoop g (layer # ls) r c nr nc =
     (case clearBlockOfLayer g layer r c nr nc of
        Inl e \<Rightarrow> Inl e
      | Inr g' \<Rightarrow> clearBlockLoop g' ls r c nr nc)"

definition clearCols :: "GridMap \<Rightarrow> int \<Rightarrow> int \<Rightarrow> error + GridMap" where
  "clearCols g index nCols =
     clearBlockLoop g (basicLayers_m g) index 0 nCols (comp2 (getSize g) 1)"

definition clearRows :: "GridMap \<Rightarrow> int \<Rightarrow> int \<Rightarrow> error + GridMap" where
  "clearRows g index nRows =
     clearBlockLoop g (basicLayers_m g) 0 index (comp2 (getSize g) 0) nRows"

text \<open>The local structure \<^verbatim>\<open>Lines\<close> of \<^verbatim>\<open>move\<close>: an index and a number of lines.\<close>

datatype Lines = Lines (index_l: int) (size_l: int)

text \<open>
  The state of the loop of \<^verbatim>\<open>move\<close> is the map with the two vectors \<^verbatim>\<open>colLines\<close> and
  \<^verbatim>\<open>rowLines\<close>. \<open>dropLines\<close> is the pair of statements that the source repeats for each
  region it drops:
  \<^verbatim>\<open>if (i == 0) { clearCols(index, n); colLines.push_back(lines); }\<close>
  \<^verbatim>\<open>if (i == 1) { clearRows(index, n); rowLines.push_back(lines); }\<close>
\<close>

type_synonym MoveState = "GridMap \<times> Lines list \<times> Lines list"

definition dropLines :: "nat \<Rightarrow> MoveState \<Rightarrow> int \<Rightarrow> int \<Rightarrow> error + MoveState" where
  "dropLines i st index nCells =
     (case st of (g, colLines, rowLines) \<Rightarrow>
        (case (if i = 0
               then (case clearCols g index nCells of
                       Inl e \<Rightarrow> Inl e
                     | Inr g' \<Rightarrow> Inr (g', colLines @ [Lines index nCells], rowLines))
               else Inr (g, colLines, rowLines)) of
           Inl e \<Rightarrow> Inl e
         | Inr (g1, colLines1, rowLines1) \<Rightarrow>
             if i = 1
             then (case clearRows g1 index nCells of
                     Inl e \<Rightarrow> Inl e
                   | Inr g2 \<Rightarrow> Inr (g2, colLines1, rowLines1 @ [Lines index nCells]))
             else Inr (g1, colLines1, rowLines1)))"

text \<open>One round of the loop over the axes, for axis \<open>i\<close>.\<close>

definition moveAxis :: "Index \<Rightarrow> nat \<Rightarrow> MoveState \<Rightarrow> error + MoveState" where
  "moveAxis indexShift i st =
     (case st of (g, colLines, rowLines) \<Rightarrow>
        if comp2 indexShift i \<noteq> 0 then
          if \<bar>comp2 indexShift i\<bar> \<ge> comp2 (getSize g) i then
            Inr (clearAll g, colLines, rowLines)
          else
            let sign = (if comp2 indexShift i > 0 then 1 else - 1 :: int);
                startIndex = comp2 (startIndex_m g) i - (if sign < 0 then 1 else 0);
                endIndex = startIndex - sign + comp2 indexShift i;
                nCells = \<bar>comp2 indexShift i\<bar>;
                index = mapIndexWithinRange (if sign > 0 then startIndex else endIndex)
                          (comp2 (getSize g) i)
            in if index + nCells \<le> comp2 (getSize g) i then
                 dropLines i (g, colLines, rowLines) index nCells
               else
                 let firstIndex = index;
                     firstNCells = comp2 (getSize g) i - firstIndex
                 in (case dropLines i (g, colLines, rowLines) firstIndex firstNCells of
                       Inl e \<Rightarrow> Inl e
                     | Inr st1 \<Rightarrow>
                         let secondIndex = 0;
                             secondNCells = nCells - firstNCells
                         in dropLines i st1 secondIndex secondNCells)
        else Inr st)"

text \<open>
  \<^verbatim>\<open>move(position, newRegionIndeces, newRegionSizes)\<close>. The two vectors are passed by
  reference and appended to; the result is the returned flag, the new state and the two
  vectors. The difference and the sum of positions are the exact ones.
\<close>

definition move ::
  "GridMap \<Rightarrow> Position \<Rightarrow> Index list \<Rightarrow> Size list \<Rightarrow>
     error + (bool \<times> GridMap \<times> Index list \<times> Size list)" where
  "move g position newRegionIndeces newRegionSizes =
     (let positionShift = (fst position - fst (position_m g), snd position - snd (position_m g));
          indexShift = getIndexShiftFromPositionShift positionShift (resolution_m g);
          alignedPositionShift = getPositionShiftFromIndexShift indexShift (resolution_m g)
      in (case moveAxis indexShift 0 (g, [], []) of
            Inl e \<Rightarrow> Inl e
          | Inr st0 \<Rightarrow>
              (case moveAxis indexShift 1 st0 of
                 Inl e \<Rightarrow> Inl e
               | Inr (g1, colLines, rowLines) \<Rightarrow>
                   let g2 = g1\<lparr>startIndex_m := (fst (startIndex_m g1) + fst indexShift,
                                                snd (startIndex_m g1) + snd indexShift)\<rparr>;
                       g3 = g2\<lparr>startIndex_m := mapIndexWithinRange2 (startIndex_m g2) (getSize g2)\<rparr>;
                       g4 = g3\<lparr>position_m := (fst (position_m g3) + fst alignedPositionShift,
                                              snd (position_m g3) + snd alignedPositionShift)\<rparr>
                   in Inr (fst indexShift \<noteq> 0 \<or> snd indexShift \<noteq> 0, g4,
                           newRegionIndeces
                             @ map (\<lambda>lines. (0, index_l lines)) colLines
                             @ map (\<lambda>lines. (index_l lines, 0)) rowLines,
                           newRegionSizes
                             @ map (\<lambda>lines. (comp2 (getSize g4) 0, size_l lines)) colLines
                             @ map (\<lambda>lines. (size_l lines, comp2 (getSize g4) 1)) rowLines))))"

text \<open>\<^verbatim>\<open>move(position)\<close> passes two fresh vectors and drops them.\<close>

definition move_position :: "GridMap \<Rightarrow> Position \<Rightarrow> error + (bool \<times> GridMap)" where
  "move_position g position =
     (case move g position [] [] of
        Inl e \<Rightarrow> Inl e
      | Inr (moved, g', newRegionIndices, newRegionSizes) \<Rightarrow> Inr (moved, g'))"

text \<open>The index shift that \<^verbatim>\<open>move\<close> computes for a target position.\<close>

definition indexShiftTo :: "GridMap \<Rightarrow> Position \<Rightarrow> Index" where
  "indexShiftTo g position =
     getIndexShiftFromPositionShift
       (fst position - fst (position_m g), snd position - snd (position_m g)) (resolution_m g)"

section \<open>States of the data model\<close>

text \<open>
  The invariants the spec gives for a grid: a positive resolution, a positive size, a start
  index inside \<open>[0, size)\<close> on each axis, and every layer buffer of exactly that size.
\<close>

definition validGeometry :: "GridMap \<Rightarrow> bool" where
  "validGeometry g \<longleftrightarrow>
     0 < resolution_m g \<and> 0 < fst (size_m g) \<and> 0 < snd (size_m g) \<and>
     0 \<le> fst (startIndex_m g) \<and> fst (startIndex_m g) < fst (size_m g) \<and>
     0 \<le> snd (startIndex_m g) \<and> snd (startIndex_m g) < snd (size_m g)"

definition startIndexInRange :: "GridMap \<Rightarrow> bool" where
  "startIndexInRange g \<longleftrightarrow>
     0 \<le> fst (startIndex_m g) \<and> fst (startIndex_m g) < fst (size_m g) \<and>
     0 \<le> snd (startIndex_m g) \<and> snd (startIndex_m g) < snd (size_m g)"

definition layersSized :: "GridMap \<Rightarrow> bool" where
  "layersSized g \<longleftrightarrow>
     list_all (\<lambda>(layer, m). rows m = fst (size_m g) \<and> cols m = snd (size_m g)) (data_m g)"

section \<open>Extracting a submap\<close>

text \<open>
  The class \<^verbatim>\<open>SubmapGeometry\<close> is not among the sources: \<^verbatim>\<open>getSubmap\<close> reads its length,
  resolution, position and top-left index, and its constructor reports success through a
  flag. The region type \<^verbatim>\<open>BufferRegion\<close> is not among the sources either; the source reads
  an index, a size and one of four quadrants from it.
\<close>

record SubmapGeometry =
  sg_length :: Length
  sg_resolution :: real
  sg_position :: Position
  sg_topLeftIndex :: Index

datatype Quadrant = TopLeft | TopRight | BottomLeft | BottomRight

datatype BufferRegion = BufferRegion (br_index: Index) (br_size: Size) (br_quadrant: Quadrant)

text \<open>
  The corner blocks of the matrix library: \<^verbatim>\<open>topLeftCorner(r, c)\<close> is
  \<^verbatim>\<open>block(0, 0, r, c)\<close>, \<^verbatim>\<open>topRightCorner(r, c)\<close> is \<^verbatim>\<open>block(0, cols - c, r, c)\<close>,
  \<^verbatim>\<open>bottomLeftCorner(r, c)\<close> is \<^verbatim>\<open>block(rows - r, 0, r, c)\<close> and
  \<^verbatim>\<open>bottomRightCorner(r, c)\<close> is \<^verbatim>\<open>block(rows - r, cols - c, r, c)\<close>. \<open>assignCorner\<close> is
  the chain of four cases in the copy loop of \<^verbatim>\<open>getSubmap\<close>.
\<close>

definition assignCorner :: "Matrix \<Rightarrow> Matrix \<Rightarrow> BufferRegion \<Rightarrow> error + Matrix" where
  "assignCorner dst src bufferRegion =
     (let index = br_index bufferRegion;
          sz = br_size bufferRegion
      in if br_quadrant bufferRegion = TopLeft then
           blockAssign dst 0 0 src (fst index) (snd index) (fst sz) (snd sz)
         else if br_quadrant bufferRegion = TopRight then
           blockAssign dst 0 (cols dst - snd sz) src (fst index) (snd index) (fst sz) (snd sz)
         else if br_quadrant bufferRegion = BottomLeft then
           blockAssign dst (rows dst - fst sz) 0 src (fst index) (snd index) (fst sz) (snd sz)
         else
           blockAssign dst (rows dst - fst sz) (cols dst - snd sz) src
             (fst index) (snd index) (fst sz) (snd sz))"

text \<open>\<^verbatim>\<open>data_[layer]\<close>: the entry of the key, inserted as an empty matrix when absent.\<close>

definition indexOrInsert ::
  "(string \<times> Matrix) list \<Rightarrow> string \<Rightarrow> (string \<times> Matrix) list \<times> Matrix" where
  "indexOrInsert d layer =
     (case map_of d layer of
        Some m \<Rightarrow> (d, m)
      | None \<Rightarrow> (d @ [(layer, Matrix0)], Matrix0))"

definition copyRegion :: "GridMap \<Rightarrow> string \<Rightarrow> Matrix \<Rightarrow> BufferRegion \<Rightarrow> error + GridMap" where
  "copyRegion submap layer src bufferRegion =
     (case indexOrInsert (data_m submap) layer of (d, dst) \<Rightarrow>
        (case assignCorner dst src bufferRegion of
           Inl e \<Rightarrow> Inl e
         | Inr dst' \<Rightarrow> Inr (submap\<lparr>data_m := AList.update layer dst' d\<rparr>)))"

fun copyRegions :: "GridMap \<Rightarrow> string \<Rightarrow> Matrix \<Rightarrow> BufferRegion list \<Rightarrow> error + GridMap" where
  "copyRegions submap layer src [] = Inr submap"
| "copyRegions submap layer src (bufferRegion # rest) =
     (case copyRegion submap layer src bufferRegion of
        Inl e \<Rightarrow> Inl e
      | Inr submap' \<Rightarrow> copyRegions submap' layer src rest)"

fun copyLayers ::
  "GridMap \<Rightarrow> (string \<times> Matrix) list \<Rightarrow> BufferRegion list \<Rightarrow> error + GridMap" where
  "copyLayers submap [] bufferRegions = Inr submap"
| "copyLayers submap ((layer, src) # rest) bufferRegions =
     (case copyRegions submap layer src bufferRegions of
        Inl e \<Rightarrow> Inl e
      | Inr submap' \<Rightarrow> copyLayers submap' rest bufferRegions)"

text \<open>
  \<^verbatim>\<open>getSubmap(position, length, indexInSubmap, isSuccess)\<close>. The constructor of
  \<^verbatim>\<open>SubmapGeometry\<close> and \<^verbatim>\<open>getBufferRegionsForSubmap\<close> are the two parameters
  \<open>submapGeometry\<close> (the geometry with the success flag) and \<open>bufferRegionsForSubmap\<close>
  (\<open>None\<close> when it returns false). The method is not \<^verbatim>\<open>const\<close>: the result is the
  source map after the call, the returned map and \<^verbatim>\<open>isSuccess\<close>. The source never
  assigns \<^verbatim>\<open>indexInSubmap\<close>.
\<close>

definition getSubmap ::
  "(GridMap \<Rightarrow> Position \<Rightarrow> Length \<Rightarrow> SubmapGeometry \<times> bool) \<Rightarrow>
   (Index \<Rightarrow> Size \<Rightarrow> Size \<Rightarrow> Index \<Rightarrow> BufferRegion list option) \<Rightarrow>
   GridMap \<Rightarrow> Position \<Rightarrow> Length \<Rightarrow> error + (GridMap \<times> GridMap \<times> bool)" where
  "getSubmap submapGeometry bufferRegionsForSubmap g position len =
     (let submap0 = newGridMap (layers_m g);
          submap1 = setBasicLayers submap0 (basicLayers_m g);
          submap2 = setTimestamp submap1 (timestamp_m g);
          submap3 = setFrameId submap2 (frameId_m g)
      in (case submapGeometry g position len of (submapInformation, isSuccess) \<Rightarrow>
            if isSuccess = False then Inr (g, newGridMap (layers_m g), False)
            else
              (case setGeometry submap3 (sg_length submapInformation)
                      (sg_resolution submapInformation) (sg_position submapInformation) of
                 Inl e \<Rightarrow> Inl e
               | Inr submap4 \<Rightarrow>
                   let submap5 = submap4\<lparr>startIndex_m := (0, 0)\<rparr>
                   in (case bufferRegionsForSubmap (sg_topLeftIndex submapInformation)
                              (getSize submap5) (size_m g) (startIndex_m g) of
                         None \<Rightarrow> Inr (g, newGridMap (layers_m g), False)
                       | Some bufferRegions \<Rightarrow>
                           (case copyLayers submap5 (data_m g) bufferRegions of
                              Inl e \<Rightarrow> Inl e
                            | Inr submap6 \<Rightarrow> Inr (g, submap6, True))))))"

text \<open>
  Modelled from the spec: the condition under which the constructor of
  \<^verbatim>\<open>SubmapGeometry\<close>, which is not among the sources, succeeds. The spec lets the
  extraction fail when the requested window does not fit entirely inside the current map
  bounds; the window has the requested centre and length, the map its position and length.
\<close>

definition windowInsideMap :: "GridMap \<Rightarrow> Position \<Rightarrow> Length \<Rightarrow> bool" where
  "windowInsideMap g position len \<longleftrightarrow>
     fst (position_m g) - fst (length_m g) / 2 \<le> fst position - fst len / 2 \<and>
     fst position + fst len / 2 \<le> fst (position_m g) + fst (length_m g) / 2 \<and>
     snd (position_m g) - snd (length_m g) / 2 \<le> snd position - snd len / 2 \<and>
     snd position + snd len / 2 \<le> snd (position_m g) + snd (length_m g) / 2"

text \<open>
  Modelled from the spec: one constructor of \<^verbatim>\<open>SubmapGeometry\<close> that keeps the spec's
  contract for the success flag. It stands in for the absent constructor where a concrete
  one is needed; the geometry it returns is the requested one at the map's resolution.
\<close>

definition windowSubmapGeometry :: "GridMap \<Rightarrow> Position \<Rightarrow> Length \<Rightarrow> SubmapGeometry \<times> bool" where
  "windowSubmapGeometry g position len =
     (\<lparr>sg_length = len, sg_resolution = resolution_m g, sg_position = position,
       sg_topLeftIndex = (0, 0)\<rparr>,
      windowInsideMap g position len)"

section \<open>Converting between positions and indices\<close>






section \<open>Logical cells\<close>




text \<open>
  Line \<open>a\<close> of the buffer, on an axis of size \<open>n\<close> with start index \<open>s\<close>, holds the logical
  line \<open>(a - s) mod n\<close>. A shift by \<open>k\<close> lines keeps the logical lines \<open>k, \<dots>, n - 1\<close> when
  \<open>k\<close> is positive and \<open>0, \<dots>, n - 1 + k\<close> when it is negative; \<open>lineDropped\<close> says that
  the buffer line holds one of the others.
\<close>

definition lineDropped :: "int \<Rightarrow> int \<Rightarrow> int \<Rightarrow> int \<Rightarrow> bool" where
  "lineDropped n s k a \<longleftrightarrow> \<not> (k \<le> (a - s) mod n \<and> (a - s) mod n < n + k)"

text \<open>
  \<open>cellsCleared C g g'\<close>: the state \<open>g'\<close> is \<open>g\<close> with \<^verbatim>\<open>NAN\<close> written into the cells
  \<open>(i, j)\<close> of the layers that \<open>C\<close> selects. Nothing but \<open>data_m\<close> differs, the layers are the
  same in the same order, and every matrix keeps its dimensions.
\<close>

definition cellsCleared :: "(string \<Rightarrow> int \<Rightarrow> int \<Rightarrow> bool) \<Rightarrow> GridMap \<Rightarrow> GridMap \<Rightarrow> bool" where
  "cellsCleared C g g' \<longleftrightarrow>
     g' = g\<lparr>data_m := data_m g'\<rparr> \<and>
     map fst (data_m g') = map fst (data_m g) \<and>
     list_all2 (\<lambda>e e'. rows (snd e') = rows (snd e) \<and> cols (snd e') = cols (snd e))
       (data_m g) (data_m g') \<and>
     (\<forall>layer.
        case map_of (data_m g) layer of
          None \<Rightarrow> map_of (data_m g') layer = None
        | Some m \<Rightarrow>
            (\<exists>m'. map_of (data_m g') layer = Some m' \<and>
                  rows m' = rows m \<and> cols m' = cols m \<and>
                  (\<forall>i j. coeff m' i j = (if C layer i j then NaN else coeff m i j))))"

text \<open>
  The cells that the round of the loop of \<^verbatim>\<open>move\<close> for axis \<open>i\<close> sets to \<^verbatim>\<open>NAN\<close>: every
  cell of every layer when the shift on the axis is at least the size, and otherwise the
  cells of the basic layers in the dropped lines of the axis.
\<close>

definition droppedByAxis :: "GridMap \<Rightarrow> Index \<Rightarrow> nat \<Rightarrow> string \<Rightarrow> int \<Rightarrow> int \<Rightarrow> bool" where
  "droppedByAxis g indexShift i layer a b \<longleftrightarrow>
     (if comp2 (size_m g) i \<le> \<bar>comp2 indexShift i\<bar> then True
      else layer \<in> set (basicLayers_m g) \<and>
           0 \<le> a \<and> a < fst (size_m g) \<and> 0 \<le> b \<and> b < snd (size_m g) \<and>
           lineDropped (comp2 (size_m g) i) (comp2 (startIndex_m g) i) (comp2 indexShift i)
             (comp2 (a, b) i))"

text \<open>A region \<open>(index, size)\<close> of buffer cells, as \<^verbatim>\<open>move\<close> reports it to the caller.\<close>

definition inRegion :: "Index \<Rightarrow> Size \<Rightarrow> Index \<Rightarrow> bool" where
  "inRegion index sz cell \<longleftrightarrow>
     fst index \<le> fst cell \<and> fst cell < fst index + fst sz \<and>
     snd index \<le> snd cell \<and> snd cell < snd index + snd sz"

text \<open>
  Two observations of a call \<^verbatim>\<open>move(position, indices, sizes)\<close> with two empty vectors:
  the cell of a layer at a buffer index after the call, and the regions that the call
  reports, each an index with its size.
\<close>

definition cellAfterMove :: "GridMap \<Rightarrow> Position \<Rightarrow> string \<Rightarrow> Index \<Rightarrow> error + cfloat" where
  "cellAfterMove g position layer index =
     (case move g position [] [] of
        Inl e \<Rightarrow> Inl e
      | Inr (moved, g', newRegionIndeces, newRegionSizes) \<Rightarrow> atIndex g' layer index)"

definition regionsAfterMove :: "GridMap \<Rightarrow> Position \<Rightarrow> error + (Index \<times> Size) list" where
  "regionsAfterMove g position =
     (case move g position [] [] of
        Inl e \<Rightarrow> Inl e
      | Inr (moved, g', newRegionIndeces, newRegionSizes) \<Rightarrow>
          Inr (zip newRegionIndeces newRegionSizes))"

section \<open>A small grid\<close>

text \<open>
  A grid of two rows and three columns with resolution 1 around the origin. Its layers are
  \<open>elevation\<close>, which is basic, and \<open>color\<close>, which is not; the cell \<open>(i, j)\<close> of both holds
  \<open>10 i + j\<close>.
\<close>

definition exampleLayer :: Matrix where
  "exampleLayer = \<lparr>rows = 2, cols = 3, coeff = (\<lambda>i j. Finite (real_of_int (10 * i + j)))\<rparr>"

definition exampleGrid :: GridMap where
  "exampleGrid =
     \<lparr>frameId_m = ''map'', timestamp_m = 0,
      data_m = [(''elevation'', exampleLayer), (''color'', exampleLayer)],
      layers_m = [''elevation'', ''color''], basicLayers_m = [''elevation''],
      length_m = (2, 3), position_m = (0, 0), resolution_m = 1,
      size_m = (2, 3), startIndex_m = (0, 0)\<rparr>"

section \<open>Properties\<close>

subsection \<open>Validity of an index over an empty list of layers\<close>

text \<open>
  C10. \<^verbatim>\<open>isValid(index, layers)\<close> with an empty list of layers answers false for every
  index, and so does \<^verbatim>\<open>isValid(index)\<close> on a grid whose list of basic layers is empty:
  the empty list is not vacuously valid, and no layer is looked up.
\<close>

theorem isValid_empty_layers:
  "isValid_layers g index [] = Inr False \<and>
   isValid (g\<lparr>basicLayers_m := []\<rparr>) index = Inr False"
  by (simp add: isValid_layers_def isValid_def)

subsection \<open>Arithmetic on double\<close>

lemma toDouble_exponent:
  assumes "2 powr real_of_int e \<le> \<bar>x\<bar>" and "\<bar>x\<bar> < 2 powr (real_of_int e + 1)"
    and "- 1022 \<le> e"
  shows "toDouble x =
     (let y = real_of_int (roundHalfEven (x / 2 powr (real_of_int e - 52))) *
              2 powr (real_of_int e - 52)
      in if 2 ^ 1024 \<le> \<bar>y\<bar> then Infinite (x < 0) else Finite y)"
proof -
  have "0 < 2 powr real_of_int e" by simp
  with assms(1) have x: "0 < \<bar>x\<bar>" by linarith
  then have "x \<noteq> 0" by simp
  have "\<lfloor>log 2 \<bar>x\<bar>\<rfloor> = e"
    using assms(1,2) x by (simp add: floor_log_eq_powr_iff)
  with \<open>x \<noteq> 0\<close> assms(3) show ?thesis
    by (simp add: toDouble_def Let_def max_def)
qed

lemma roundHalfEven_nonneg: "0 \<le> y \<Longrightarrow> 0 \<le> roundHalfEven y"
  by (simp add: roundHalfEven_def Let_def)

lemma toDouble_nonneg:
  assumes "0 \<le> x" and "toDouble x = Finite q"
  shows "0 \<le> q"
proof (cases "x = 0")
  case True
  with assms(2) show ?thesis by (simp add: toDouble_def)
next
  case False
  define ulp where "ulp = 2 powr (real_of_int (max \<lfloor>log 2 \<bar>x\<bar>\<rfloor> (- 1022)) - 52)"
  have u: "0 < ulp" by (simp add: ulp_def)
  from False assms(2) have q: "q = real_of_int (roundHalfEven (x / ulp)) * ulp"
    by (simp add: toDouble_def Let_def ulp_def split: if_splits)
  have "0 \<le> x / ulp" using assms(1) u by simp
  then have "0 \<le> roundHalfEven (x / ulp)" by (rule roundHalfEven_nonneg)
  with u show ?thesis unfolding q by simp
qed

lemma double_div_values:
  "double_div 1 1 = Finite 1" "double_div 2 1 = Finite 2" "double_div 3 1 = Finite 3"
  "double_div (1 / 4) 1 = Finite (1 / 4)"
  "double_div 3000000000 1 = Finite 3000000000"
proof -
  have "toDouble 1 = Finite 1"
    by (subst toDouble_exponent [of 0]) (simp_all add: roundHalfEven_def powr_neg_numeral)
  then show "double_div 1 1 = Finite 1" by (simp add: double_div_def)
  have "toDouble 2 = Finite 2"
    by (subst toDouble_exponent [of 1]) (simp_all add: roundHalfEven_def powr_neg_numeral)
  then show "double_div 2 1 = Finite 2" by (simp add: double_div_def)
  have "toDouble 3 = Finite 3"
    by (subst toDouble_exponent [of 1]) (simp_all add: roundHalfEven_def powr_neg_numeral)
  then show "double_div 3 1 = Finite 3" by (simp add: double_div_def)
  have "toDouble (1 / 4) = Finite (1 / 4)"
    by (subst toDouble_exponent [of "- 2"]) (simp_all add: roundHalfEven_def powr_neg_numeral)
  then show "double_div (1 / 4) 1 = Finite (1 / 4)" by (simp add: double_div_def)
  have "toDouble 3000000000 = Finite 3000000000"
    by (subst toDouble_exponent [of 31]) (simp_all add: roundHalfEven_def powr_neg_numeral)
  then show "double_div 3000000000 1 = Finite 3000000000" by (simp add: double_div_def)
qed

lemma double_mul_values:
  "double_mul 0 1 = Finite 0" "double_mul 2 1 = Finite 2" "double_mul 3 1 = Finite 3"
proof -
  show "double_mul 0 1 = Finite 0" by (simp add: double_mul_def toDouble_def)
  have "toDouble 2 = Finite 2"
    by (subst toDouble_exponent [of 1]) (simp_all add: roundHalfEven_def powr_neg_numeral)
  then show "double_mul 2 1 = Finite 2" by (simp add: double_mul_def)
  have "toDouble 3 = Finite 3"
    by (subst toDouble_exponent [of 1]) (simp_all add: roundHalfEven_def powr_neg_numeral)
  then show "double_mul 3 1 = Finite 3" by (simp add: double_mul_def)
qed

text \<open>
  The \<^verbatim>\<open>double\<close> nearest to one tenth is \<open>3602879701896397 / 2 ^ 55\<close>. The exact quotient
  of a quarter by it is below \<open>5 / 2\<close>, the \<^verbatim>\<open>double\<close> quotient is \<open>5 / 2\<close>; three times it is
  not a \<^verbatim>\<open>double\<close>, and the product is the next \<^verbatim>\<open>double\<close> above.
\<close>

lemma double_tenth:
  "(1 / 4) / (3602879701896397 / 36028797018963968) < (5 / 2 :: real)"
  "double_div (1 / 4) (3602879701896397 / 36028797018963968) = Finite (5 / 2)"
  "double_mul 3 (3602879701896397 / 36028797018963968) =
     Finite (1351079888211149 / 4503599627370496)"
proof -
  show "(1 / 4) / (3602879701896397 / 36028797018963968) < (5 / 2 :: real)" by simp
  have "toDouble ((1 / 4) / (3602879701896397 / 36028797018963968)) = Finite (5 / 2)"
    by (subst toDouble_exponent [of 1]) (simp_all add: roundHalfEven_def powr_neg_numeral)
  then show "double_div (1 / 4) (3602879701896397 / 36028797018963968) = Finite (5 / 2)"
    by (simp add: double_div_def)
  have "toDouble (3 * (3602879701896397 / 36028797018963968)) =
          Finite (1351079888211149 / 4503599627370496)"
    by (subst toDouble_exponent [of "- 2"]) (simp_all add: roundHalfEven_def powr_neg_numeral)
  then show "double_mul 3 (3602879701896397 / 36028797018963968) =
     Finite (1351079888211149 / 4503599627370496)"
    by (simp add: double_mul_def)
qed

lemma c_round_nearest:
  assumes "0 \<le> q"
  shows "real_of_int (c_round q) \<le> q + 1 / 2 \<and> q + 1 / 2 < real_of_int (c_round q) + 1"
  using assms by (simp add: c_round_def)

subsection \<open>Establishing the geometry\<close>

lemma setGeometry_startIndex:
  "setGeometry g len resolution position = Inr g' \<Longrightarrow> startIndex_m g' = (0, 0)"
  by (auto simp: setGeometry_def Let_def split: if_splits sum.splits cfloat.splits)

text \<open>
  C7, as the code has it. Let the length components and the resolution of a call
  \<^verbatim>\<open>setGeometry(length, resolution, position)\<close> be positive, let the two \<^verbatim>\<open>double\<close>
  quotients \<open>length / resolution\<close> be finite numbers \<open>q0\<close> and \<open>q1\<close> that \<^verbatim>\<open>round\<close> takes
  to values of \<^verbatim>\<open>int\<close>, and let the two \<^verbatim>\<open>double\<close> products of these sizes with the
  resolution be finite. The call returns. Afterwards the size is the rounded quotient on
  each axis, which is the whole number nearest to the quotient, the upper one at a tie;
  the grid has the layers it had, every layer buffer has the dimensions of the size and
  holds \<^verbatim>\<open>NAN\<close> in every cell, the start index is \<open>(0, 0)\<close>, the stored length is the
  product of the size and the resolution, and the stored position and resolution are the
  given ones.
\<close>

theorem setGeometry_postcondition:
  assumes "0 < fst len" and "0 < snd len" and "0 < resolution"
    and q0: "double_div (fst len) resolution = Finite q0"
    and q1: "double_div (snd len) resolution = Finite q1"
    and r0: "c_round q0 \<le> 2147483647" and r1: "c_round q1 \<le> 2147483647"
    and l0: "double_mul (real_of_int (c_round q0)) resolution = Finite length0"
    and l1: "double_mul (real_of_int (c_round q1)) resolution = Finite length1"
  shows "\<exists>g'. setGeometry g len resolution position = Inr g' \<and>
           size_m g' = (c_round q0, c_round q1) \<and>
           real_of_int (fst (size_m g')) \<le> q0 + 1 / 2 \<and>
           q0 + 1 / 2 < real_of_int (fst (size_m g')) + 1 \<and>
           real_of_int (snd (size_m g')) \<le> q1 + 1 / 2 \<and>
           q1 + 1 / 2 < real_of_int (snd (size_m g')) + 1 \<and>
           map fst (data_m g') = map fst (data_m g) \<and>
           (\<forall>(layer, m) \<in> set (data_m g').
              rows m = fst (size_m g') \<and> cols m = snd (size_m g') \<and>
              (\<forall>i j. 0 \<le> i \<and> i < rows m \<and> 0 \<le> j \<and> j < cols m \<longrightarrow> coeffAt m i j = Inr NaN)) \<and>
           startIndex_m g' = (0, 0) \<and>
           length_m g' = (length0, length1) \<and>
           position_m g' = position \<and> resolution_m g' = resolution"
proof -
  have p0: "0 \<le> q0"
  proof (rule toDouble_nonneg)
    show "0 \<le> fst len / resolution" using assms(1,3) by simp
    show "toDouble (fst len / resolution) = Finite q0"
      using q0 assms(3) by (simp add: double_div_def)
  qed
  have p1: "0 \<le> q1"
  proof (rule toDouble_nonneg)
    show "0 \<le> snd len / resolution" using assms(2,3) by simp
    show "toDouble (snd len / resolution) = Finite q1"
      using q1 assms(3) by (simp add: double_div_def)
  qed
  have c0: "0 \<le> c_round q0" and c1: "0 \<le> c_round q1"
    using p0 p1 by (simp_all add: c_round_def)
  have s0: "roundedQuotient (fst len) resolution = Inr (c_round q0)"
    using q0 r0 c0 by (simp add: roundedQuotient_def static_cast_int_def)
  have s1: "roundedQuotient (snd len) resolution = Inr (c_round q1)"
    using q1 r1 c1 by (simp add: roundedQuotient_def static_cast_int_def)
  note n0 = c_round_nearest [OF p0] and n1 = c_round_nearest [OF p1]
  show ?thesis
    using assms(1-3) n0 n1
    by (auto simp: setGeometry_def s0 s1 l0 l1 Let_def clearAll_def resize_def resizeMatrix_def
        setConstant_def coeffAt_def)
qed

theorem setGeometry_postcondition_witness:
  "(0 :: real) < 1 / 4 \<and> (0 :: real) < 3602879701896397 / 36028797018963968 \<and>
   double_div (1 / 4) (3602879701896397 / 36028797018963968) = Finite (5 / 2) \<and>
   c_round (5 / 2) = 3 \<and>
   (\<exists>g'. setGeometry exampleGrid (1 / 4, 1 / 4) (3602879701896397 / 36028797018963968) (5, 7)
            = Inr g' \<and>
         size_m g' = (3, 3) \<and> startIndex_m g' = (0, 0) \<and>
         length_m g' = (1351079888211149 / 4503599627370496,
                        1351079888211149 / 4503599627370496) \<and>
         position_m g' = (5, 7))"
proof -
  have c: "c_round (5 / 2) = 3" by (simp add: c_round_def)
  have q: "double_div (fst (1 / 4 :: real, 1 / 4 :: real))
             (3602879701896397 / 36028797018963968) = Finite (5 / 2)"
    "double_div (snd (1 / 4 :: real, 1 / 4 :: real))
             (3602879701896397 / 36028797018963968) = Finite (5 / 2)"
    by (simp_all add: double_tenth(2))
  have r: "c_round (5 / 2) \<le> 2147483647" by (simp add: c)
  have l: "double_mul (real_of_int (c_round (5 / 2))) (3602879701896397 / 36028797018963968) =
             Finite (1351079888211149 / 4503599627370496)"
    by (simp add: c double_tenth(3))
  have "\<exists>g'. setGeometry exampleGrid (1 / 4, 1 / 4) (3602879701896397 / 36028797018963968) (5, 7)
            = Inr g' \<and>
         size_m g' = (3, 3) \<and> startIndex_m g' = (0, 0) \<and>
         length_m g' = (1351079888211149 / 4503599627370496,
                        1351079888211149 / 4503599627370496) \<and>
         position_m g' = (5, 7)"
    using setGeometry_postcondition [OF _ _ _ q r r l l, of exampleGrid "(5, 7)"]
    by (simp add: c) (elim exE conjE, intro exI conjI, assumption+)
  then show ?thesis using double_tenth(2) c by simp
qed

text \<open>
  A length of three thousand million cells: the quotient is a finite \<^verbatim>\<open>double\<close>, and
  \<^verbatim>\<open>round\<close> takes it to a value above the largest \<^verbatim>\<open>int\<close>, so that the conversion has
  no defined result and the size is not the rounded quotient.
\<close>

theorem setGeometry_overflow_counterexample:
  "(0 :: real) < 3000000000 \<and> double_div 3000000000 1 = Finite 3000000000 \<and>
   c_round 3000000000 = 3000000000 \<and>
   setGeometry exampleGrid (3000000000, 1) 1 (0, 0) = Inl UndefinedBehaviour"
  by (simp add: setGeometry_def roundedQuotient_def static_cast_int_def double_div_values
      c_round_def)

subsection \<open>Moving to the current position\<close>





subsection \<open>Clearing cells\<close>

lemma cellsCleared_frame:
  "cellsCleared C g g' \<Longrightarrow> g' = g\<lparr>data_m := data_m g'\<rparr>"
  by (simp add: cellsCleared_def)

lemma cellsCleared_keys:
  "cellsCleared C g g' \<Longrightarrow> map fst (data_m g') = map fst (data_m g)"
  by (simp add: cellsCleared_def)

lemma cellsCleared_dims:
  "cellsCleared C g g' \<Longrightarrow>
   list_all2 (\<lambda>e e'. rows (snd e') = rows (snd e) \<and> cols (snd e') = cols (snd e))
     (data_m g) (data_m g')"
  by (simp add: cellsCleared_def)

lemma cellsCleared_None:
  assumes "cellsCleared C g g'" and "map_of (data_m g) layer = None"
  shows "map_of (data_m g') layer = None"
proof -
  from assms(1) have "case map_of (data_m g) layer of
          None \<Rightarrow> map_of (data_m g') layer = None
        | Some m \<Rightarrow>
            (\<exists>m'. map_of (data_m g') layer = Some m' \<and>
                  rows m' = rows m \<and> cols m' = cols m \<and>
                  (\<forall>i j. coeff m' i j = (if C layer i j then NaN else coeff m i j)))"
    unfolding cellsCleared_def by blast
  with assms(2) show ?thesis by simp
qed

lemma cellsCleared_Some:
  assumes "cellsCleared C g g'" and "map_of (data_m g) layer = Some m"
  shows "\<exists>m'. map_of (data_m g') layer = Some m' \<and>
                  rows m' = rows m \<and> cols m' = cols m \<and>
                  (\<forall>i j. coeff m' i j = (if C layer i j then NaN else coeff m i j))"
proof -
  from assms(1) have "case map_of (data_m g) layer of
          None \<Rightarrow> map_of (data_m g') layer = None
        | Some m \<Rightarrow>
            (\<exists>m'. map_of (data_m g') layer = Some m' \<and>
                  rows m' = rows m \<and> cols m' = cols m \<and>
                  (\<forall>i j. coeff m' i j = (if C layer i j then NaN else coeff m i j)))"
    unfolding cellsCleared_def by blast
  with assms(2) show ?thesis by simp
qed

lemma cellsClearedI:
  assumes "g' = g\<lparr>data_m := data_m g'\<rparr>"
    and "map fst (data_m g') = map fst (data_m g)"
    and "list_all2 (\<lambda>e e'. rows (snd e') = rows (snd e) \<and> cols (snd e') = cols (snd e))
           (data_m g) (data_m g')"
    and "\<And>layer. map_of (data_m g) layer = None \<Longrightarrow> map_of (data_m g') layer = None"
    and "\<And>layer m. map_of (data_m g) layer = Some m \<Longrightarrow>
           \<exists>m'. map_of (data_m g') layer = Some m' \<and> rows m' = rows m \<and> cols m' = cols m \<and>
                 (\<forall>i j. coeff m' i j = (if C layer i j then NaN else coeff m i j))"
  shows "cellsCleared C g g'"
  unfolding cellsCleared_def
proof (intro conjI allI)
  fix layer
  show "case map_of (data_m g) layer of
          None \<Rightarrow> map_of (data_m g') layer = None
        | Some m \<Rightarrow>
            (\<exists>m'. map_of (data_m g') layer = Some m' \<and>
                  rows m' = rows m \<and> cols m' = cols m \<and>
                  (\<forall>i j. coeff m' i j = (if C layer i j then NaN else coeff m i j)))"
    using assms(4,5) by (cases "map_of (data_m g) layer") simp_all
qed (use assms(1,2,3) in simp_all)

lemma cellsCleared_refl:
  assumes "\<And>layer i j. \<not> C layer i j"
  shows "cellsCleared C g g"
  by (rule cellsClearedI) (simp_all add: assms list_all2_same)

lemma cellsCleared_trans:
  assumes a: "cellsCleared C1 g g1" and b: "cellsCleared C2 g1 g2"
    and c: "\<And>layer i j. C layer i j \<longleftrightarrow> C1 layer i j \<or> C2 layer i j"
  shows "cellsCleared C g g2"
proof (rule cellsClearedI)
  have "g2 = g1\<lparr>data_m := data_m g2\<rparr>" using b by (rule cellsCleared_frame)
  also have "g1 = g\<lparr>data_m := data_m g1\<rparr>" using a by (rule cellsCleared_frame)
  finally show "g2 = g\<lparr>data_m := data_m g2\<rparr>" by simp
next
  show "map fst (data_m g2) = map fst (data_m g)"
    using cellsCleared_keys [OF a] cellsCleared_keys [OF b] by simp
next
  show "list_all2 (\<lambda>e e'. rows (snd e') = rows (snd e) \<and> cols (snd e') = cols (snd e))
             (data_m g) (data_m g2)"
    using cellsCleared_dims [OF a] cellsCleared_dims [OF b]
    by (rule list_all2_trans [rotated]) simp
next
  fix layer assume "map_of (data_m g) layer = None"
  then show "map_of (data_m g2) layer = None"
    using cellsCleared_None [OF a] cellsCleared_None [OF b] by simp
next
  fix layer m0 assume "map_of (data_m g) layer = Some m0"
  from cellsCleared_Some [OF a this]
  obtain m1 where m1: "map_of (data_m g1) layer = Some m1" "rows m1 = rows m0" "cols m1 = cols m0"
      "\<forall>i j. coeff m1 i j = (if C1 layer i j then NaN else coeff m0 i j)"
    by blast
  from cellsCleared_Some [OF b m1(1)]
  obtain m2 where m2: "map_of (data_m g2) layer = Some m2" "rows m2 = rows m1" "cols m2 = cols m1"
      "\<forall>i j. coeff m2 i j = (if C2 layer i j then NaN else coeff m1 i j)"
    by blast
  show "\<exists>m'. map_of (data_m g2) layer = Some m' \<and> rows m' = rows m0 \<and> cols m' = cols m0 \<and>
                 (\<forall>i j. coeff m' i j = (if C layer i j then NaN else coeff m0 i j))"
    using m1 m2 by (simp add: c)
qed

lemma list_all2_update_entry:
  assumes "map_of d k = Some m" and "R (k, m) (k, m')" and "\<And>e. R e e"
  shows "list_all2 R d (AList.update k m' d)"
  using assms(1)
proof (induction d)
  case Nil
  then show ?case by simp
next
  case (Cons e d)
  then show ?case
    using assms(2,3) by (cases e) (auto simp: list_all2_same)
qed

lemma map_of_Some_key: "map_of d k = Some m \<Longrightarrow> k \<in> fst ` set d"
  using map_of_SomeD by force

lemma blockInside_dims:
  "rows m' = rows m \<Longrightarrow> cols m' = cols m \<Longrightarrow>
   blockInside m' r c nr nc = blockInside m r c nr nc"
  by (simp add: blockInside_def)

lemma clearBlockOfLayer_cleared:
  assumes m: "map_of (data_m g) layer = Some m" and b: "blockInside m r c nr nc"
  shows "\<exists>g'. clearBlockOfLayer g layer r c nr nc = Inr g' \<and>
              cellsCleared (\<lambda>l i j. l = layer \<and> inBlock r c nr nc i j) g g'"
proof -
  let ?m' = "m\<lparr>coeff := (\<lambda>i j. if inBlock r c nr nc i j then NaN else coeff m i j)\<rparr>"
  let ?g' = "g\<lparr>data_m := AList.update layer ?m' (data_m g)\<rparr>"
  have r: "clearBlockOfLayer g layer r c nr nc = Inr ?g'"
    using m b by (simp add: clearBlockOfLayer_def blockSetConstant_def)
  have "cellsCleared (\<lambda>l i j. l = layer \<and> inBlock r c nr nc i j) g ?g'"
  proof (rule cellsClearedI)
    show "?g' = g\<lparr>data_m := data_m ?g'\<rparr>" by simp
    show "map fst (data_m ?g') = map fst (data_m g)"
      using map_of_Some_key [OF m] by (simp add: update_keys)
    show "list_all2 (\<lambda>e e'. rows (snd e') = rows (snd e) \<and> cols (snd e') = cols (snd e))
            (data_m g) (data_m ?g')"
      using list_all2_update_entry [OF m, of
          "\<lambda>e e'. rows (snd e') = rows (snd e) \<and> cols (snd e') = cols (snd e)" ?m']
      by simp
    show "map_of (data_m ?g') l = None" if "map_of (data_m g) l = None" for l
      using that m by (auto simp: update_conv')
    show "\<exists>m'. map_of (data_m ?g') l = Some m' \<and> rows m' = rows m0 \<and> cols m' = cols m0 \<and>
            (\<forall>i j. coeff m' i j =
               (if l = layer \<and> inBlock r c nr nc i j then NaN else coeff m0 i j))"
      if "map_of (data_m g) l = Some m0" for l m0
      using that m by (auto simp: update_conv')
  qed
  with r show ?thesis by blast
qed

lemma clearBlockLoop_cleared:
  assumes "\<forall>layer \<in> set ls. \<exists>m. map_of (data_m g) layer = Some m \<and> blockInside m r c nr nc"
  shows "\<exists>g'. clearBlockLoop g ls r c nr nc = Inr g' \<and>
              cellsCleared (\<lambda>l i j. l \<in> set ls \<and> inBlock r c nr nc i j) g g'"
  using assms
proof (induction ls arbitrary: g)
  case Nil
  show ?case by (simp add: cellsCleared_refl)
next
  case (Cons layer ls)
  from Cons.prems obtain m where m: "map_of (data_m g) layer = Some m" "blockInside m r c nr nc"
    by auto
  from clearBlockOfLayer_cleared [OF m]
  obtain g1 where g1: "clearBlockOfLayer g layer r c nr nc = Inr g1"
      "cellsCleared (\<lambda>l i j. l = layer \<and> inBlock r c nr nc i j) g g1"
    by blast
  have "\<forall>l \<in> set ls. \<exists>m. map_of (data_m g1) l = Some m \<and> blockInside m r c nr nc"
  proof
    fix l assume "l \<in> set ls"
    with Cons.prems obtain m0 where m0: "map_of (data_m g) l = Some m0" "blockInside m0 r c nr nc"
      by auto
    from cellsCleared_Some [OF g1(2) m0(1)]
    obtain m1 where "map_of (data_m g1) l = Some m1" "rows m1 = rows m0" "cols m1 = cols m0"
      by blast
    with m0(2) blockInside_dims [of m1 m0 r c nr nc]
    show "\<exists>m. map_of (data_m g1) l = Some m \<and> blockInside m r c nr nc"
      by simp
  qed
  from Cons.IH [OF this]
  obtain g' where g': "clearBlockLoop g1 ls r c nr nc = Inr g'"
      "cellsCleared (\<lambda>l i j. l \<in> set ls \<and> inBlock r c nr nc i j) g1 g'"
    by blast
  have "cellsCleared (\<lambda>l i j. l \<in> set (layer # ls) \<and> inBlock r c nr nc i j) g g'"
    by (rule cellsCleared_trans [OF g1(2) g'(2)]) auto
  with g1(1) g'(1) show ?case by simp
qed

lemma layersSized_lookup:
  assumes "layersSized g" and "map_of (data_m g) layer = Some m"
  shows "rows m = fst (size_m g) \<and> cols m = snd (size_m g)"
proof -
  have "(layer, m) \<in> set (data_m g)" using assms(2) by (rule map_of_SomeD)
  with assms(1) show ?thesis by (auto simp: layersSized_def list_all_iff)
qed

lemma cellsCleared_fields:
  assumes "cellsCleared C g g'"
  shows "size_m g' = size_m g" and "startIndex_m g' = startIndex_m g"
    and "basicLayers_m g' = basicLayers_m g" and "layers_m g' = layers_m g"
    and "position_m g' = position_m g" and "resolution_m g' = resolution_m g"
    and "length_m g' = length_m g" and "timestamp_m g' = timestamp_m g"
    and "frameId_m g' = frameId_m g"
proof -
  obtain d where "g' = g\<lparr>data_m := d\<rparr>"
    by (rule that [OF cellsCleared_frame [OF assms]])
  then show "size_m g' = size_m g" and "startIndex_m g' = startIndex_m g"
    and "basicLayers_m g' = basicLayers_m g" and "layers_m g' = layers_m g"
    and "position_m g' = position_m g" and "resolution_m g' = resolution_m g"
    and "length_m g' = length_m g" and "timestamp_m g' = timestamp_m g"
    and "frameId_m g' = frameId_m g"
    by simp_all
qed

lemma list_all_dims_transfer:
  assumes "list_all2 (\<lambda>e e'. rows (snd e') = rows (snd e) \<and> cols (snd e') = cols (snd e)) d d'"
    and "list_all (\<lambda>(layer, m). rows m = a \<and> cols m = b) d"
  shows "list_all (\<lambda>(layer, m). rows m = a \<and> cols m = b) d'"
  using assms by (induction rule: list_all2_induct) auto

lemma layersSized_cleared:
  assumes "cellsCleared C g g'" and "layersSized g"
  shows "layersSized g'"
  using list_all_dims_transfer [OF cellsCleared_dims [OF assms(1)]] assms(2)
  by (simp add: layersSized_def cellsCleared_fields(1) [OF assms(1)])

lemma clearCols_cleared:
  assumes s: "layersSized g" and b: "set (basicLayers_m g) \<subseteq> fst ` set (data_m g)"
    and r: "0 \<le> index" "0 \<le> n" "index + n \<le> fst (size_m g)" "0 \<le> snd (size_m g)"
  shows "\<exists>g'. clearCols g index n = Inr g' \<and>
              cellsCleared (\<lambda>l i j. l \<in> set (basicLayers_m g) \<and>
                 inBlock index 0 n (snd (size_m g)) i j) g g'"
proof -
  have "\<forall>layer \<in> set (basicLayers_m g).
          \<exists>m. map_of (data_m g) layer = Some m \<and> blockInside m index 0 n (snd (size_m g))"
  proof
    fix layer assume "layer \<in> set (basicLayers_m g)"
    with b have "layer \<in> fst ` set (data_m g)" by blast
    then obtain m where m: "map_of (data_m g) layer = Some m"
      by (meson domD domI map_of_eq_None_iff not_None_eq)
    from layersSized_lookup [OF s m] r
    have "blockInside m index 0 n (snd (size_m g))" by (simp add: blockInside_def)
    with m show "\<exists>m. map_of (data_m g) layer = Some m \<and> blockInside m index 0 n (snd (size_m g))"
      by blast
  qed
  from clearBlockLoop_cleared [OF this] show ?thesis
    by (simp add: clearCols_def comp2_def getSize_def)
qed

lemma clearRows_cleared:
  assumes s: "layersSized g" and b: "set (basicLayers_m g) \<subseteq> fst ` set (data_m g)"
    and r: "0 \<le> index" "0 \<le> n" "index + n \<le> snd (size_m g)" "0 \<le> fst (size_m g)"
  shows "\<exists>g'. clearRows g index n = Inr g' \<and>
              cellsCleared (\<lambda>l i j. l \<in> set (basicLayers_m g) \<and>
                 inBlock 0 index (fst (size_m g)) n i j) g g'"
proof -
  have "\<forall>layer \<in> set (basicLayers_m g).
          \<exists>m. map_of (data_m g) layer = Some m \<and> blockInside m 0 index (fst (size_m g)) n"
  proof
    fix layer assume "layer \<in> set (basicLayers_m g)"
    with b have "layer \<in> fst ` set (data_m g)" by blast
    then obtain m where m: "map_of (data_m g) layer = Some m"
      by (meson domD domI map_of_eq_None_iff not_None_eq)
    from layersSized_lookup [OF s m] r
    have "blockInside m 0 index (fst (size_m g)) n" by (simp add: blockInside_def)
    with m show "\<exists>m. map_of (data_m g) layer = Some m \<and> blockInside m 0 index (fst (size_m g)) n"
      by blast
  qed
  from clearBlockLoop_cleared [OF this] show ?thesis
    by (simp add: clearRows_def comp2_def getSize_def)
qed

subsection \<open>The band of lines that a shift drops\<close>

lemma mod_range_low: "0 \<le> x \<Longrightarrow> x < n \<Longrightarrow> (x::int) mod n = x"
  by simp

lemma mod_range_neg:
  fixes x n :: int
  assumes "- n \<le> x" and "x < 0"
  shows "x mod n = x + n"
proof -
  have "0 \<le> x + n" and "x + n < n" using assms by simp_all
  then have "(x + n) mod n = x + n" by (rule mod_pos_pos_trivial)
  then show ?thesis by simp
qed

lemma line_logical:
  fixes n s a :: int
  assumes "0 \<le> s" "s < n" "0 \<le> a" "a < n"
  shows "(a - s) mod n = (if s \<le> a then a - s else a - s + n)"
  using assms by (simp add: mod_range_low mod_range_neg)

lemma band_index:
  fixes n s k :: int
  assumes "0 \<le> s" "s < n" "k \<noteq> 0" "\<bar>k\<bar> < n"
  shows "(if 0 < k then s else s + k) mod n =
         (if 0 < k then s else if 0 \<le> s + k then s + k else s + k + n)"
  using assms by (simp add: mod_range_low mod_range_neg)

lemma band_single:
  fixes n s k a :: int
  assumes "0 \<le> s" "s < n" "k \<noteq> 0" "\<bar>k\<bar> < n" "0 \<le> a" "a < n"
    and "index = (if 0 < k then s else s + k) mod n"
    and "index + \<bar>k\<bar> \<le> n"
  shows "(index \<le> a \<and> a < index + \<bar>k\<bar>) \<longleftrightarrow> lineDropped n s k a"
proof -
  have ix: "index = (if 0 < k then s else if 0 \<le> s + k then s + k else s + k + n)"
    using band_index [OF assms(1-4)] assms(7) by simp
  show ?thesis
    using assms(1-6,8)
    unfolding lineDropped_def line_logical [OF assms(1,2,5,6)] ix
    by (cases "0 < k"; cases "s \<le> a"; cases "0 \<le> s + k"; simp; arith)
qed

lemma band_double:
  fixes n s k a :: int
  assumes "0 \<le> s" "s < n" "k \<noteq> 0" "\<bar>k\<bar> < n" "0 \<le> a" "a < n"
    and "index = (if 0 < k then s else s + k) mod n"
    and "\<not> index + \<bar>k\<bar> \<le> n"
  shows "(index \<le> a \<and> a < index + (n - index)) \<or> (0 \<le> a \<and> a < 0 + (\<bar>k\<bar> - (n - index)))
          \<longleftrightarrow> lineDropped n s k a"
proof -
  have ix: "index = (if 0 < k then s else if 0 \<le> s + k then s + k else s + k + n)"
    using band_index [OF assms(1-4)] assms(7) by simp
  show ?thesis
    using assms(1-6,8)
    unfolding lineDropped_def line_logical [OF assms(1,2,5,6)] ix
    by (cases "0 < k"; cases "s \<le> a"; cases "0 \<le> s + k"; simp; arith)
qed

subsection \<open>One round of the loop of move\<close>

lemma cellsCleared_cong:
  assumes "cellsCleared C g g'" and "\<And>layer i j. C' layer i j \<longleftrightarrow> C layer i j"
  shows "cellsCleared C' g g'"
  by (rule cellsCleared_trans [OF assms(1) cellsCleared_refl [of "\<lambda>l i j. False"]])
    (simp_all add: assms(2))

lemma clearAll_cleared: "cellsCleared (\<lambda>l i j. True) g (clearAll g)"
proof (rule cellsClearedI)
  show "clearAll g = g\<lparr>data_m := data_m (clearAll g)\<rparr>"
    by (simp add: clearAll_def)
  show "map fst (data_m (clearAll g)) = map fst (data_m g)"
    by (simp add: clearAll_def case_prod_beta comp_def)
  show "list_all2 (\<lambda>e e'. rows (snd e') = rows (snd e) \<and> cols (snd e') = cols (snd e))
          (data_m g) (data_m (clearAll g))"
    by (simp add: clearAll_def list_all2_map2 list_all2_same case_prod_beta setConstant_def)
  show "map_of (data_m (clearAll g)) l = None" if "map_of (data_m g) l = None" for l
    using that by (simp add: clearAll_def map_of_map)
  show "\<exists>m'. map_of (data_m (clearAll g)) l = Some m' \<and> rows m' = rows m \<and> cols m' = cols m \<and>
          (\<forall>i j. coeff m' i j = (if True then NaN else coeff m i j))"
    if "map_of (data_m g) l = Some m" for l m
    using that by (simp add: clearAll_def map_of_map setConstant_def)
qed

lemma dropLines_cleared:
  assumes s: "layersSized g" and b: "set (basicLayers_m g) \<subseteq> fst ` set (data_m g)"
    and i: "i = 0 \<or> i = 1"
    and r: "0 \<le> index" "0 \<le> n" "index + n \<le> comp2 (size_m g) i"
      "0 \<le> fst (size_m g)" "0 \<le> snd (size_m g)"
  shows "\<exists>g' cl' rl'. dropLines i (g, cl, rl) index n = Inr (g', cl', rl') \<and>
           cellsCleared (\<lambda>l a b. l \<in> set (basicLayers_m g) \<and>
              0 \<le> a \<and> a < fst (size_m g) \<and> 0 \<le> b \<and> b < snd (size_m g) \<and>
              index \<le> comp2 (a, b) i \<and> comp2 (a, b) i < index + n) g g'"
proof -
  from i show ?thesis
  proof
    assume i0: "i = 0"
    from clearCols_cleared [OF s b r(1,2) _ r(5)] r(3) i0
    obtain g' where g': "clearCols g index n = Inr g'"
      "cellsCleared (\<lambda>l i j. l \<in> set (basicLayers_m g) \<and>
                 inBlock index 0 n (snd (size_m g)) i j) g g'"
      by (auto simp: comp2_def)
    have "cellsCleared (\<lambda>l a b. l \<in> set (basicLayers_m g) \<and>
              0 \<le> a \<and> a < fst (size_m g) \<and> 0 \<le> b \<and> b < snd (size_m g) \<and>
              index \<le> comp2 (a, b) i \<and> comp2 (a, b) i < index + n) g g'"
      by (rule cellsCleared_cong [OF g'(2)]) (use r i0 in \<open>auto simp: inBlock_def comp2_def\<close>)
    with g'(1) i0 show ?thesis by (simp add: dropLines_def)
  next
    assume i1: "i = 1"
    from clearRows_cleared [OF s b r(1,2) _ r(4)] r(3) i1
    obtain g' where g': "clearRows g index n = Inr g'"
      "cellsCleared (\<lambda>l i j. l \<in> set (basicLayers_m g) \<and>
                 inBlock 0 index (fst (size_m g)) n i j) g g'"
      by (auto simp: comp2_def)
    have "cellsCleared (\<lambda>l a b. l \<in> set (basicLayers_m g) \<and>
              0 \<le> a \<and> a < fst (size_m g) \<and> 0 \<le> b \<and> b < snd (size_m g) \<and>
              index \<le> comp2 (a, b) i \<and> comp2 (a, b) i < index + n) g g'"
      by (rule cellsCleared_cong [OF g'(2)]) (use r i1 in \<open>auto simp: inBlock_def comp2_def\<close>)
    with g'(1) i1 show ?thesis by (simp add: dropLines_def)
  qed
qed

lemma keys_cleared:
  assumes "cellsCleared C g g'" and "set (basicLayers_m g) \<subseteq> fst ` set (data_m g)"
  shows "set (basicLayers_m g') \<subseteq> fst ` set (data_m g')"
proof -
  have "fst ` set (data_m g') = set (map fst (data_m g'))" by simp
  also have "\<dots> = set (map fst (data_m g))" by (simp only: cellsCleared_keys [OF assms(1)])
  finally show ?thesis using assms(2) by (simp add: cellsCleared_fields(3) [OF assms(1)])
qed

lemma moveAxis_partial:
  assumes v: "validGeometry g" and s: "layersSized g"
    and b: "set (basicLayers_m g) \<subseteq> fst ` set (data_m g)"
    and i: "i = 0 \<or> i = 1"
    and k: "comp2 ks i \<noteq> 0" "\<bar>comp2 ks i\<bar> < comp2 (size_m g) i"
  shows "\<exists>g' cl' rl'. moveAxis ks i (g, cl, rl) = Inr (g', cl', rl') \<and>
           cellsCleared (droppedByAxis g ks i) g g'"
proof -
  define n where "n = comp2 (size_m g) i"
  define st where "st = comp2 (startIndex_m g) i"
  define index where "index = (if 0 < comp2 ks i then st else st + comp2 ks i) mod n"
  have st: "0 \<le> st" "st < n"
    using v i by (auto simp: validGeometry_def st_def n_def comp2_def)
  have sz: "0 \<le> fst (size_m g)" "0 \<le> snd (size_m g)"
    using v by (simp_all add: validGeometry_def)
  have n: "0 < n" using st by simp
  have ix: "0 \<le> index" "index < n"
    using n by (simp_all add: index_def)
  have kn: "\<bar>comp2 ks i\<bar> < n" using k(2) by (simp add: n_def)
  have rng: "0 \<le> comp2 (a, c) i \<and> comp2 (a, c) i < n"
    if "0 \<le> a" "a < fst (size_m g)" "0 \<le> c" "c < snd (size_m g)" for a c
    using that i by (auto simp: comp2_def n_def)
  have unfold: "moveAxis ks i (g, cl, rl) =
      (if index + \<bar>comp2 ks i\<bar> \<le> n then dropLines i (g, cl, rl) index \<bar>comp2 ks i\<bar>
       else (case dropLines i (g, cl, rl) index (n - index) of
               Inl e \<Rightarrow> Inl e
             | Inr st1 \<Rightarrow> dropLines i st1 0 (\<bar>comp2 ks i\<bar> - (n - index))))"
    using k by (simp add: moveAxis_def Let_def mapIndexWithinRange_def getSize_def
        index_def n_def st_def cong: sum.case_cong)
  show ?thesis
  proof (cases "index + \<bar>comp2 ks i\<bar> \<le> n")
    case True
    from dropLines_cleared [OF s b i ix(1) _ _ sz, of "\<bar>comp2 ks i\<bar>" cl rl] True
    obtain g' cl' rl' where g': "dropLines i (g, cl, rl) index \<bar>comp2 ks i\<bar> = Inr (g', cl', rl')"
      "cellsCleared (\<lambda>l a b. l \<in> set (basicLayers_m g) \<and>
              0 \<le> a \<and> a < fst (size_m g) \<and> 0 \<le> b \<and> b < snd (size_m g) \<and>
              index \<le> comp2 (a, b) i \<and> comp2 (a, b) i < index + \<bar>comp2 ks i\<bar>) g g'"
      by (auto simp: n_def)
    have "cellsCleared (droppedByAxis g ks i) g g'"
    proof (rule cellsCleared_cong [OF g'(2)])
      fix layer a c
      show "droppedByAxis g ks i layer a c \<longleftrightarrow>
            (layer \<in> set (basicLayers_m g) \<and>
              0 \<le> a \<and> a < fst (size_m g) \<and> 0 \<le> c \<and> c < snd (size_m g) \<and>
              index \<le> comp2 (a, c) i \<and> comp2 (a, c) i < index + \<bar>comp2 ks i\<bar>)"
      proof (cases "0 \<le> a \<and> a < fst (size_m g) \<and> 0 \<le> c \<and> c < snd (size_m g)")
        case False
        then show ?thesis using k(2) by (auto simp: droppedByAxis_def)
      next
        case inside: True
        with rng have r: "0 \<le> comp2 (a, c) i" "comp2 (a, c) i < n" by simp_all
        from band_single [OF st k(1) kn r index_def True]
        show ?thesis using k(2) inside
          by (simp add: droppedByAxis_def n_def st_def)
      qed
    qed
    with g'(1) unfold True show ?thesis by simp
  next
    case False
    from dropLines_cleared [OF s b i ix(1) _ _ sz, of "n - index" cl rl] ix
    obtain g1 cl1 rl1 where g1: "dropLines i (g, cl, rl) index (n - index) = Inr (g1, cl1, rl1)"
      "cellsCleared (\<lambda>l a b. l \<in> set (basicLayers_m g) \<and>
              0 \<le> a \<and> a < fst (size_m g) \<and> 0 \<le> b \<and> b < snd (size_m g) \<and>
              index \<le> comp2 (a, b) i \<and> comp2 (a, b) i < index + (n - index)) g g1"
      by (auto simp: n_def)
    note f = cellsCleared_fields [OF g1(2)]
    have s1: "layersSized g1" using g1(2) s by (rule layersSized_cleared)
    have b1: "set (basicLayers_m g1) \<subseteq> fst ` set (data_m g1)"
      using g1(2) b by (rule keys_cleared)
    have sz1: "0 \<le> fst (size_m g1)" "0 \<le> snd (size_m g1)" using sz by (simp_all add: f)
    have le: "0 + (\<bar>comp2 ks i\<bar> - (n - index)) \<le> comp2 (size_m g1) i"
      using kn ix by (simp add: f n_def)
    have nn: "0 \<le> \<bar>comp2 ks i\<bar> - (n - index)" using False by simp
    from dropLines_cleared [OF s1 b1 i _ nn le sz1, of cl1 rl1]
    obtain g2 cl2 rl2 where g2:
      "dropLines i (g1, cl1, rl1) 0 (\<bar>comp2 ks i\<bar> - (n - index)) = Inr (g2, cl2, rl2)"
      "cellsCleared (\<lambda>l a b. l \<in> set (basicLayers_m g) \<and>
              0 \<le> a \<and> a < fst (size_m g) \<and> 0 \<le> b \<and> b < snd (size_m g) \<and>
              0 \<le> comp2 (a, b) i \<and> comp2 (a, b) i < 0 + (\<bar>comp2 ks i\<bar> - (n - index))) g1 g2"
      by (auto simp: f)
    have "cellsCleared (droppedByAxis g ks i) g g2"
    proof (rule cellsCleared_trans [OF g1(2) g2(2)])
      fix layer a c
      show "droppedByAxis g ks i layer a c \<longleftrightarrow>
            (layer \<in> set (basicLayers_m g) \<and>
              0 \<le> a \<and> a < fst (size_m g) \<and> 0 \<le> c \<and> c < snd (size_m g) \<and>
              index \<le> comp2 (a, c) i \<and> comp2 (a, c) i < index + (n - index)) \<or>
            (layer \<in> set (basicLayers_m g) \<and>
              0 \<le> a \<and> a < fst (size_m g) \<and> 0 \<le> c \<and> c < snd (size_m g) \<and>
              0 \<le> comp2 (a, c) i \<and> comp2 (a, c) i < 0 + (\<bar>comp2 ks i\<bar> - (n - index)))"
      proof (cases "0 \<le> a \<and> a < fst (size_m g) \<and> 0 \<le> c \<and> c < snd (size_m g)")
        case False
        then show ?thesis using k(2) by (auto simp: droppedByAxis_def)
      next
        case inside: True
        with rng have r: "0 \<le> comp2 (a, c) i" "comp2 (a, c) i < n" by simp_all
        from band_double [OF st k(1) kn r index_def False]
        show ?thesis using k(2) inside
          by (auto simp: droppedByAxis_def n_def st_def)
      qed
    qed
    with g1(1) g2(1) unfold False show ?thesis by simp
  qed
qed

subsection \<open>The cells that move clears\<close>

lemma moveAxis_cleared:
  assumes v: "validGeometry g" and s: "layersSized g"
    and b: "set (basicLayers_m g) \<subseteq> fst ` set (data_m g)"
    and i: "i = 0 \<or> i = 1"
  shows "\<exists>g' cl' rl'. moveAxis ks i (g, cl, rl) = Inr (g', cl', rl') \<and>
           cellsCleared (droppedByAxis g ks i) g g'"
proof -
  have n: "0 < comp2 (size_m g) i"
    using v i by (auto simp: validGeometry_def comp2_def)
  consider (zero) "comp2 ks i = 0"
    | (full) "comp2 ks i \<noteq> 0" "comp2 (size_m g) i \<le> \<bar>comp2 ks i\<bar>"
    | (partial) "comp2 ks i \<noteq> 0" "\<bar>comp2 ks i\<bar> < comp2 (size_m g) i"
    by linarith
  then show ?thesis
  proof cases
    case zero
    have "cellsCleared (droppedByAxis g ks i) g g"
    proof (rule cellsCleared_refl)
      fix layer a c
      show "\<not> droppedByAxis g ks i layer a c"
        using n zero by (simp add: droppedByAxis_def lineDropped_def)
    qed
    with zero show ?thesis by (simp add: moveAxis_def)
  next
    case full
    have "cellsCleared (droppedByAxis g ks i) g (clearAll g)"
      by (rule cellsCleared_cong [OF clearAll_cleared]) (use full in \<open>simp add: droppedByAxis_def\<close>)
    with full show ?thesis by (simp add: moveAxis_def getSize_def)
  next
    case partial
    then show ?thesis by (rule moveAxis_partial [OF v s b i])
  qed
qed

lemma validGeometry_cleared:
  assumes "cellsCleared C g g'" and "validGeometry g"
  shows "validGeometry g'"
  using assms(2) by (simp add: validGeometry_def cellsCleared_fields [OF assms(1)])

lemma droppedByAxis_cleared:
  assumes "cellsCleared C g g'"
  shows "droppedByAxis g' ks i = droppedByAxis g ks i"
  by (intro ext) (simp add: droppedByAxis_def cellsCleared_fields [OF assms])

lemma move_cleared:
  assumes v: "validGeometry g" and s: "layersSized g"
    and b: "set (basicLayers_m g) \<subseteq> fst ` set (data_m g)"
  shows "\<exists>g1 ris rss.
           move g position ri rs =
             Inr (fst (indexShiftTo g position) \<noteq> 0 \<or> snd (indexShiftTo g position) \<noteq> 0,
                  g1\<lparr>startIndex_m :=
                        ((fst (startIndex_m g) + fst (indexShiftTo g position)) mod fst (size_m g),
                         (snd (startIndex_m g) + snd (indexShiftTo g position)) mod snd (size_m g)),
                      position_m :=
                        (fst (position_m g) + real_of_int (fst (indexShiftTo g position)) * resolution_m g,
                         snd (position_m g) + real_of_int (snd (indexShiftTo g position)) * resolution_m g)\<rparr>,
                  ris, rss) \<and>
           cellsCleared (\<lambda>l a c. droppedByAxis g (indexShiftTo g position) 0 l a c \<or>
                                 droppedByAxis g (indexShiftTo g position) 1 l a c) g g1"
proof -
  define ks where "ks = indexShiftTo g position"
  from moveAxis_cleared [OF v s b, of 0 ks "[]" "[]"]
  obtain g0 cl0 rl0 where g0: "moveAxis ks 0 (g, [], []) = Inr (g0, cl0, rl0)"
      "cellsCleared (droppedByAxis g ks 0) g g0"
    by auto
  have v0: "validGeometry g0" using g0(2) v by (rule validGeometry_cleared)
  have s0: "layersSized g0" using g0(2) s by (rule layersSized_cleared)
  have b0: "set (basicLayers_m g0) \<subseteq> fst ` set (data_m g0)" using g0(2) b by (rule keys_cleared)
  from moveAxis_cleared [OF v0 s0 b0, of 1 ks cl0 rl0]
  obtain g1 cl1 rl1 where g1: "moveAxis ks 1 (g0, cl0, rl0) = Inr (g1, cl1, rl1)"
      "cellsCleared (droppedByAxis g ks 1) g0 g1"
    by (auto simp: droppedByAxis_cleared [OF g0(2)])
  have c: "cellsCleared (\<lambda>l a c. droppedByAxis g ks 0 l a c \<or> droppedByAxis g ks 1 l a c) g g1"
    by (rule cellsCleared_trans [OF g0(2) g1(2)]) simp
  note f = cellsCleared_fields [OF c]
  have "move g position ri rs =
          Inr (fst ks \<noteq> 0 \<or> snd ks \<noteq> 0,
               g1\<lparr>startIndex_m := ((fst (startIndex_m g) + fst ks) mod fst (size_m g),
                                    (snd (startIndex_m g) + snd ks) mod snd (size_m g)),
                   position_m := (fst (position_m g) + real_of_int (fst ks) * resolution_m g,
                                  snd (position_m g) + real_of_int (snd ks) * resolution_m g)\<rparr>,
               ri @ map (\<lambda>lines. (0, index_l lines)) cl1 @ map (\<lambda>lines. (index_l lines, 0)) rl1,
               rs @ map (\<lambda>lines. (fst (size_m g), size_l lines)) cl1
                  @ map (\<lambda>lines. (size_l lines, snd (size_m g))) rl1)"
    using g0(1) g1(1)
    by (simp add: move_def Let_def ks_def [symmetric] indexShiftTo_def [symmetric]
        mapIndexWithinRange2_def mapIndexWithinRange_def getSize_def comp2_def f
        getPositionShiftFromIndexShift_def)
  with c show ?thesis unfolding ks_def by blast
qed

subsection \<open>Layers of a grid and the small grid\<close>

lemma key_lookup:
  assumes "layer \<in> fst ` set d"
  obtains m where "map_of d layer = Some m"
  using assms by (meson domD domI map_of_eq_None_iff not_None_eq)

lemma exampleGrid_valid:
  "validGeometry exampleGrid" "layersSized exampleGrid"
  "set (basicLayers_m exampleGrid) \<subseteq> fst ` set (data_m exampleGrid)"
  by (simp_all add: validGeometry_def layersSized_def exampleGrid_def exampleLayer_def)

text \<open>
  The small grid is a state of the class: the constructor, \<^verbatim>\<open>setGeometry\<close>, two calls
  of \<^verbatim>\<open>add\<close>, \<^verbatim>\<open>setBasicLayers\<close> and \<^verbatim>\<open>setFrameId\<close> lead to it.
\<close>

lemma exampleGrid_reachable:
  "\<exists>g1 g2 g3.
     setGeometry (newGridMap []) (2, 3) 1 (0, 0) = Inr g1 \<and>
     add_data g1 ''elevation'' exampleLayer = Inr g2 \<and>
     add_data g2 ''color'' exampleLayer = Inr g3 \<and>
     setFrameId (setBasicLayers g3 [''elevation'']) ''map'' = exampleGrid"
  by (simp add: setGeometry_def roundedQuotient_def static_cast_int_def double_div_values
      double_mul_values newGridMap_def resize_def clearAll_def c_round_def Let_def
      add_data_def exists_def insertData_def setFrameId_def setBasicLayers_def
      exampleGrid_def exampleLayer_def)

subsection \<open>A shift of at least the size of the map\<close>

text \<open>
  C3, as the code has it. When the index shift of a call to \<^verbatim>\<open>move\<close> is at least the size
  on some axis, the call returns true and afterwards every cell of every layer holds
  \<^verbatim>\<open>NAN\<close>: the code calls \<^verbatim>\<open>clearAll\<close>, which runs over all of \<open>data_\<close>, so the layers
  that are not basic are cleared with the basic ones. The grid has a valid geometry, layer
  buffers of the size of the grid, and data for each of its basic layers.
\<close>

theorem move_full_shift_clears_every_layer:
  assumes v: "validGeometry g" and s: "layersSized g"
    and b: "set (basicLayers_m g) \<subseteq> fst ` set (data_m g)"
    and full: "fst (size_m g) \<le> \<bar>fst (indexShiftTo g position)\<bar> \<or>
               snd (size_m g) \<le> \<bar>snd (indexShiftTo g position)\<bar>"
  shows "\<exists>g' ris rss.
           move g position ri rs = Inr (True, g', ris, rss) \<and>
           (\<forall>layer i j. layer \<in> fst ` set (data_m g) \<and>
                0 \<le> i \<and> i < fst (size_m g) \<and> 0 \<le> j \<and> j < snd (size_m g) \<longrightarrow>
                atIndex g' layer (i, j) = Inr NaN)"
proof -
  define ks where "ks = indexShiftTo g position"
  from move_cleared [OF v s b, of position ri rs]
  obtain g1 ris rss where m:
    "move g position ri rs =
       Inr (fst ks \<noteq> 0 \<or> snd ks \<noteq> 0,
            g1\<lparr>startIndex_m := ((fst (startIndex_m g) + fst ks) mod fst (size_m g),
                                 (snd (startIndex_m g) + snd ks) mod snd (size_m g)),
                position_m := (fst (position_m g) + real_of_int (fst ks) * resolution_m g,
                               snd (position_m g) + real_of_int (snd ks) * resolution_m g)\<rparr>,
            ris, rss)"
    and c: "cellsCleared (\<lambda>l a c. droppedByAxis g ks 0 l a c \<or> droppedByAxis g ks 1 l a c) g g1"
    unfolding ks_def by blast
  have pos: "0 < fst (size_m g)" "0 < snd (size_m g)"
    using v by (simp_all add: validGeometry_def)
  have moved: "fst ks \<noteq> 0 \<or> snd ks \<noteq> 0"
    using full pos unfolding ks_def by auto
  have all: "droppedByAxis g ks 0 l a c \<or> droppedByAxis g ks 1 l a c" for l a c
    using full unfolding ks_def [symmetric] by (auto simp: droppedByAxis_def comp2_def)
  have "atIndex (g1\<lparr>startIndex_m := si, position_m := po\<rparr>) layer (i, j) = Inr NaN"
    if "layer \<in> fst ` set (data_m g)" "0 \<le> i" "i < fst (size_m g)" "0 \<le> j" "j < snd (size_m g)"
    for layer i j si po
  proof -
    from that(1) obtain m0 where m0: "map_of (data_m g) layer = Some m0" by (rule key_lookup)
    from cellsCleared_Some [OF c m0] all
    obtain m1 where m1: "map_of (data_m g1) layer = Some m1" "rows m1 = rows m0" "cols m1 = cols m0"
      "\<forall>i j. coeff m1 i j = NaN"
      by auto
    with layersSized_lookup [OF s m0] that(2-5) show ?thesis
      by (simp add: atIndex_def coeffAt_def)
  qed
  then have "\<forall>layer i j. layer \<in> fst ` set (data_m g) \<and>
                0 \<le> i \<and> i < fst (size_m g) \<and> 0 \<le> j \<and> j < snd (size_m g) \<longrightarrow>
                atIndex (g1\<lparr>startIndex_m := ((fst (startIndex_m g) + fst ks) mod fst (size_m g),
                                 (snd (startIndex_m g) + snd ks) mod snd (size_m g)),
                position_m := (fst (position_m g) + real_of_int (fst ks) * resolution_m g,
                               snd (position_m g) + real_of_int (snd ks) * resolution_m g)\<rparr>) layer (i, j) = Inr NaN"
    by blast
  with m moved show ?thesis by (intro exI conjI) simp_all
qed

theorem move_full_shift_clears_every_layer_witness:
  "validGeometry exampleGrid \<and> layersSized exampleGrid \<and>
   indexShiftTo exampleGrid (5, 0) = (5, 0) \<and> size_m exampleGrid = (2, 3) \<and>
   (\<exists>g' ris rss. move exampleGrid (5, 0) [] [] = Inr (True, g', ris, rss) \<and>
      atIndex g' ''elevation'' (1, 2) = Inr NaN \<and> atIndex g' ''color'' (0, 0) = Inr NaN)"
proof -
  have k: "indexShiftTo exampleGrid (5, 0) = (5, 0)"
    by (simp add: indexShiftTo_def getIndexShiftFromPositionShift_def c_round_def exampleGrid_def)
  have z: "size_m exampleGrid = (2, 3)"
    by (simp add: exampleGrid_def)
  have l: "''elevation'' \<in> fst ` set (data_m exampleGrid)"
    "''color'' \<in> fst ` set (data_m exampleGrid)"
    by (simp_all add: exampleGrid_def)
  have "fst (size_m exampleGrid) \<le> \<bar>fst (indexShiftTo exampleGrid (5, 0))\<bar> \<or>
        snd (size_m exampleGrid) \<le> \<bar>snd (indexShiftTo exampleGrid (5, 0))\<bar>"
    by (simp add: k z)
  from move_full_shift_clears_every_layer [OF exampleGrid_valid this, of "[]" "[]"]
  obtain g' where "\<exists>ris rss. move exampleGrid (5, 0) [] [] = Inr (True, g', ris, rss) \<and>
           (\<forall>layer i j. layer \<in> fst ` set (data_m exampleGrid) \<and>
                0 \<le> i \<and> i < fst (size_m exampleGrid) \<and> 0 \<le> j \<and> j < snd (size_m exampleGrid) \<longrightarrow>
                atIndex g' layer (i, j) = Inr NaN)" ..
  then obtain ris where "\<exists>rss. move exampleGrid (5, 0) [] [] = Inr (True, g', ris, rss) \<and>
           (\<forall>layer i j. layer \<in> fst ` set (data_m exampleGrid) \<and>
                0 \<le> i \<and> i < fst (size_m exampleGrid) \<and> 0 \<le> j \<and> j < snd (size_m exampleGrid) \<longrightarrow>
                atIndex g' layer (i, j) = Inr NaN)" ..
  then obtain rss where mr: "move exampleGrid (5, 0) [] [] = Inr (True, g', ris, rss) \<and>
           (\<forall>layer i j. layer \<in> fst ` set (data_m exampleGrid) \<and>
                0 \<le> i \<and> i < fst (size_m exampleGrid) \<and> 0 \<le> j \<and> j < snd (size_m exampleGrid) \<longrightarrow>
                atIndex g' layer (i, j) = Inr NaN)" ..
  note m = mr [THEN conjunct1]
  note a = mr [THEN conjunct2, THEN spec, THEN spec, THEN spec, THEN mp]
  have e: "atIndex g' ''elevation'' (1, 2) = Inr NaN"
    by (rule a) (simp add: z l)
  have c: "atIndex g' ''color'' (0, 0) = Inr NaN"
    by (rule a) (simp add: z l)
  have "\<exists>g' ris rss. move exampleGrid (5, 0) [] [] = Inr (True, g', ris, rss) \<and>
      atIndex g' ''elevation'' (1, 2) = Inr NaN \<and> atIndex g' ''color'' (0, 0) = Inr NaN"
    using m e c by (intro exI conjI)
  with exampleGrid_valid(1,2) k z show ?thesis by (intro conjI)
qed

text \<open>
  The layer \<open>color\<close> of the small grid is not basic. A move by five cells on the first
  axis, whose size is two, leaves \<^verbatim>\<open>NAN\<close> in its cell \<open>(0, 0)\<close>, which held \<open>0\<close>.
\<close>

theorem move_full_shift_counterexample:
  "''color'' \<notin> set (basicLayers_m exampleGrid) \<and>
   fst (size_m exampleGrid) \<le> \<bar>fst (indexShiftTo exampleGrid (5, 0))\<bar> \<and>
   atIndex exampleGrid ''color'' (0, 0) = Inr (Finite 0) \<and>
   cellAfterMove exampleGrid (5, 0) ''color'' (0, 0) = Inr NaN"
  by (simp add: cellAfterMove_def move_def moveAxis_def clearAll_def setConstant_def
      indexShiftTo_def getIndexShiftFromPositionShift_def getPositionShiftFromIndexShift_def
      c_round_def mapIndexWithinRange2_def mapIndexWithinRange_def getSize_def comp2_def
      atIndex_def coeffAt_def exampleGrid_def exampleLayer_def Let_def)

subsection \<open>Logical lines under a shift\<close>




subsection \<open>A shift smaller than the map\<close>



subsection \<open>The regions reported to the caller\<close>

text \<open>
  C4. The code fails this claim. On the small grid a move by one cell on the first axis
  clears \<^verbatim>\<open>block(0, 0, 1, 3)\<close> of the basic layer, which is line 0 of the first axis, and
  reports the region of index \<open>(0, 0)\<close> and size \<open>(2, 1)\<close>, which is line 0 of the second
  axis: the cell \<open>(0, 2)\<close> was cleared and is not in the region, the cell \<open>(1, 0)\<close> is in
  the region and keeps its value.
\<close>

theorem move_reports_transposed_region:
  "regionsAfterMove exampleGrid (1, 0) = Inr [((0, 0), (2, 1))] \<and>
   atIndex exampleGrid ''elevation'' (0, 2) = Inr (Finite 2) \<and>
   cellAfterMove exampleGrid (1, 0) ''elevation'' (0, 2) = Inr NaN \<and>
   \<not> inRegion (0, 0) (2, 1) (0, 2) \<and>
   inRegion (0, 0) (2, 1) (1, 0) \<and>
   cellAfterMove exampleGrid (1, 0) ''elevation'' (1, 0) = Inr (Finite 10)"
  by (simp add: regionsAfterMove_def cellAfterMove_def move_def moveAxis_def dropLines_def
      clearCols_def clearRows_def clearBlockOfLayer_def blockSetConstant_def blockInside_def
      inBlock_def inRegion_def
      indexShiftTo_def getIndexShiftFromPositionShift_def getPositionShiftFromIndexShift_def
      c_round_def mapIndexWithinRange2_def mapIndexWithinRange_def getSize_def comp2_def
      atIndex_def coeffAt_def exampleGrid_def exampleLayer_def Let_def)

subsection \<open>The start index after each operation\<close>

lemma clearBlockOfLayer_frame:
  "clearBlockOfLayer g layer r c nr nc = Inr g' \<Longrightarrow>
   size_m g' = size_m g \<and> startIndex_m g' = startIndex_m g \<and> basicLayers_m g' = basicLayers_m g"
  by (auto simp: clearBlockOfLayer_def split: option.splits sum.splits)

lemma clearBlockLoop_frame:
  "clearBlockLoop g ls r c nr nc = Inr g' \<Longrightarrow>
   size_m g' = size_m g \<and> startIndex_m g' = startIndex_m g \<and> basicLayers_m g' = basicLayers_m g"
proof (induction ls arbitrary: g)
  case Nil
  then show ?case by simp
next
  case (Cons layer ls)
  then obtain g1 where g1: "clearBlockOfLayer g layer r c nr nc = Inr g1"
      "clearBlockLoop g1 ls r c nr nc = Inr g'"
    by (auto split: sum.splits)
  from clearBlockOfLayer_frame [OF g1(1)] Cons.IH [OF g1(2)] show ?case by simp
qed

lemma dropLines_frame:
  assumes "dropLines i (g, cl, rl) index n = Inr (g', cl', rl')"
  shows "size_m g' = size_m g \<and> startIndex_m g' = startIndex_m g \<and>
         basicLayers_m g' = basicLayers_m g"
  using assms
  by (auto simp: dropLines_def clearCols_def clearRows_def
      split: if_splits sum.splits dest!: clearBlockLoop_frame)

lemma moveAxis_frame:
  assumes "moveAxis ks i (g, cl, rl) = Inr (g', cl', rl')"
  shows "size_m g' = size_m g \<and> startIndex_m g' = startIndex_m g"
proof (cases "comp2 ks i \<noteq> 0 \<and> \<not> comp2 (getSize g) i \<le> \<bar>comp2 ks i\<bar>")
  case False
  with assms show ?thesis
    by (auto simp: moveAxis_def clearAll_def split: if_splits)
next
  case True
  define index where "index = mapIndexWithinRange
      (if 0 < comp2 ks i then comp2 (startIndex_m g) i else comp2 (startIndex_m g) i + comp2 ks i)
      (comp2 (getSize g) i)"
  show ?thesis
  proof (cases "index + \<bar>comp2 ks i\<bar> \<le> comp2 (getSize g) i")
    case single: True
    with True assms have "dropLines i (g, cl, rl) index \<bar>comp2 ks i\<bar> = Inr (g', cl', rl')"
      by (simp add: moveAxis_def Let_def index_def split: if_splits)
    from dropLines_frame [OF this] show ?thesis by simp
  next
    case double: False
    with True assms obtain g1 cl1 rl1 where
      a: "dropLines i (g, cl, rl) index (comp2 (getSize g) i - index) = Inr (g1, cl1, rl1)"
      and b: "dropLines i (g1, cl1, rl1) 0 (\<bar>comp2 ks i\<bar> - (comp2 (getSize g) i - index)) =
              Inr (g', cl', rl')"
      by (auto simp: moveAxis_def Let_def index_def split: if_splits sum.splits)
    from dropLines_frame [OF a] dropLines_frame [OF b] show ?thesis by simp
  qed
qed

lemma move_startIndex:
  assumes "move g position ri rs = Inr (moved, g', ris, rss)"
  shows "size_m g' = size_m g \<and>
         startIndex_m g' =
           ((fst (startIndex_m g) + fst (indexShiftTo g position)) mod fst (size_m g),
            (snd (startIndex_m g) + snd (indexShiftTo g position)) mod snd (size_m g))"
proof -
  define ks where "ks = indexShiftTo g position"
  have mv: "move g position ri rs =
     (case moveAxis ks 0 (g, [], []) of
        Inl e \<Rightarrow> Inl e
      | Inr st0 \<Rightarrow>
          (case moveAxis ks 1 st0 of
             Inl e \<Rightarrow> Inl e
           | Inr (g1, colLines, rowLines) \<Rightarrow>
               Inr (fst ks \<noteq> 0 \<or> snd ks \<noteq> 0,
                    g1\<lparr>startIndex_m :=
                          mapIndexWithinRange2
                            (fst (startIndex_m g1) + fst ks, snd (startIndex_m g1) + snd ks)
                            (size_m g1),
                        position_m :=
                          (fst (position_m g1) + fst (getPositionShiftFromIndexShift ks (resolution_m g)),
                           snd (position_m g1) + snd (getPositionShiftFromIndexShift ks (resolution_m g)))\<rparr>,
                    ri @ map (\<lambda>lines. (0, index_l lines)) colLines
                       @ map (\<lambda>lines. (index_l lines, 0)) rowLines,
                    rs @ map (\<lambda>lines. (comp2 (size_m g1) 0, size_l lines)) colLines
                       @ map (\<lambda>lines. (size_l lines, comp2 (size_m g1) 1)) rowLines)))"
    by (simp add: move_def Let_def getSize_def ks_def indexShiftTo_def
        cong: sum.case_cong prod.case_cong)
  show ?thesis
  proof (cases "moveAxis ks 0 (g, [], [])")
    case (Inl e)
    with assms mv show ?thesis by simp
  next
    case a: (Inr st0)
    obtain g0 cl0 rl0 where st0: "st0 = (g0, cl0, rl0)" by (cases st0)
    show ?thesis
    proof (cases "moveAxis ks 1 (g0, cl0, rl0)")
      case (Inl e)
      with assms mv a st0 show ?thesis by simp
    next
      case b: (Inr st1)
      obtain g1 cl1 rl1 where st1: "st1 = (g1, cl1, rl1)" by (cases st1)
      from assms mv a b st0 st1
      have c: "g' = g1\<lparr>startIndex_m :=
                          mapIndexWithinRange2
                            (fst (startIndex_m g1) + fst ks, snd (startIndex_m g1) + snd ks)
                            (size_m g1),
                        position_m :=
                          (fst (position_m g1) + fst (getPositionShiftFromIndexShift ks (resolution_m g)),
                           snd (position_m g1) + snd (getPositionShiftFromIndexShift ks (resolution_m g)))\<rparr>"
        by simp
      from moveAxis_frame [OF a [unfolded st0]] moveAxis_frame [OF b [unfolded st1]] c
      show ?thesis
        by (simp add: mapIndexWithinRange2_def mapIndexWithinRange_def ks_def)
    qed
  qed
qed

lemma clearLayers_frame:
  "clearLayers g ls = Inr g' \<Longrightarrow> size_m g' = size_m g \<and> startIndex_m g' = startIndex_m g"
proof (induction ls arbitrary: g)
  case Nil
  then show ?case by simp
next
  case (Cons layer ls)
  then obtain g1 where g1: "clear g layer = Inr g1" "clearLayers g1 ls = Inr g'"
    by (auto split: sum.splits)
  from g1(1) have "size_m g1 = size_m g \<and> startIndex_m g1 = startIndex_m g"
    by (auto simp: clear_def split: option.splits)
  with Cons.IH [OF g1(2)] show ?case by simp
qed

lemma copyRegion_frame:
  "copyRegion submap layer src bufferRegion = Inr submap' \<Longrightarrow>
   startIndex_m submap' = startIndex_m submap"
  by (auto simp: copyRegion_def split: prod.splits sum.splits)

lemma copyRegions_frame:
  "copyRegions submap layer src bufferRegions = Inr submap' \<Longrightarrow>
   startIndex_m submap' = startIndex_m submap"
proof (induction bufferRegions arbitrary: submap)
  case Nil
  then show ?case by simp
next
  case (Cons r rest)
  then obtain s1 where s1: "copyRegion submap layer src r = Inr s1"
      "copyRegions s1 layer src rest = Inr submap'"
    by (auto split: sum.splits)
  from copyRegion_frame [OF s1(1)] Cons.IH [OF s1(2)] show ?case by simp
qed

lemma copyLayers_frame:
  "copyLayers submap d bufferRegions = Inr submap' \<Longrightarrow>
   startIndex_m submap' = startIndex_m submap"
proof (induction d arbitrary: submap)
  case Nil
  then show ?case by simp
next
  case (Cons e rest)
  obtain layer src where e: "e = (layer, src)" by (cases e)
  with Cons.prems obtain s1 where s1: "copyRegions submap layer src bufferRegions = Inr s1"
      "copyLayers s1 rest bufferRegions = Inr submap'"
    by (auto split: sum.splits)
  from copyRegions_frame [OF s1(1)] Cons.IH [OF s1(2)] show ?case by simp
qed

lemma getSubmap_frame:
  assumes "getSubmap submapGeometry bufferRegionsForSubmap g position len = Inr (g', submap, ok)"
  shows "g' = g \<and> startIndex_m submap = (0, 0)"
proof -
  obtain si isSuccess where sg: "submapGeometry g position len = (si, isSuccess)"
    by (cases "submapGeometry g position len")
  show ?thesis
  proof (cases isSuccess)
    case False
    with assms sg show ?thesis by (auto simp: getSubmap_def Let_def newGridMap_def)
  next
    case True
    define submap3 where "submap3 = setFrameId (setTimestamp (setBasicLayers
        (newGridMap (layers_m g)) (basicLayers_m g)) (timestamp_m g)) (frameId_m g)"
    show ?thesis
    proof (cases "setGeometry submap3 (sg_length si) (sg_resolution si) (sg_position si)")
      case (Inl e)
      with assms sg True show ?thesis by (simp add: getSubmap_def Let_def submap3_def)
    next
      case (Inr submap4)
      show ?thesis
      proof (cases "bufferRegionsForSubmap (sg_topLeftIndex si)
                      (getSize (submap4\<lparr>startIndex_m := (0, 0)\<rparr>)) (size_m g) (startIndex_m g)")
        case None
        with assms sg True Inr show ?thesis
          by (auto simp: getSubmap_def Let_def submap3_def newGridMap_def)
      next
        case (Some bufferRegions)
        with assms sg True Inr
        have "copyLayers (submap4\<lparr>startIndex_m := (0, 0)\<rparr>) (data_m g) bufferRegions = Inr submap"
          and "g' = g"
          by (auto simp: getSubmap_def Let_def submap3_def split: sum.splits)
        from copyLayers_frame [OF this(1)] this(2) show ?thesis by simp
      qed
    qed
  qed
qed

text \<open>
  C6, as the code has it. On a grid whose start index lies in \<open>[0, size)\<close> on both axes,
  the start index lies there again after \<^verbatim>\<open>move\<close>, \<^verbatim>\<open>add\<close>, \<^verbatim>\<open>erase\<close>,
  \<^verbatim>\<open>clear\<close>, \<^verbatim>\<open>clearBasic\<close> and \<^verbatim>\<open>clearAll\<close>, and a submap extraction leaves the
  grid as it is and returns a map with start index \<open>(0, 0)\<close>. After \<^verbatim>\<open>setGeometry\<close> the
  start index \<open>(0, 0)\<close> is in range exactly when the new size is at least one on both
  axes. \<^verbatim>\<open>setStartIndex\<close> stores the index it is given, without reduction: the start
  index is in range afterwards exactly when the given index is.
\<close>

theorem startIndex_in_range_after_operations:
  assumes r: "startIndexInRange g"
  shows "(setGeometry g len resolution position = Inr g1 \<longrightarrow>
            (startIndexInRange g1 \<longleftrightarrow> 1 \<le> fst (size_m g1) \<and> 1 \<le> snd (size_m g1))) \<and>
         (move g target ri rs = Inr (moved, g2, ris, rss) \<longrightarrow> startIndexInRange g2) \<and>
         (add_data g layer m = Inr g3 \<longrightarrow> startIndexInRange g3) \<and>
         (add_value g layer x = Inr g4 \<longrightarrow> startIndexInRange g4) \<and>
         startIndexInRange (snd (erase g layer)) \<and>
         (clear g layer = Inr g5 \<longrightarrow> startIndexInRange g5) \<and>
         (clearBasic g = Inr g6 \<longrightarrow> startIndexInRange g6) \<and>
         startIndexInRange (clearAll g) \<and>
         (getSubmap submapGeometry bufferRegionsForSubmap g center len = Inr (g7, submap, ok) \<longrightarrow>
            startIndexInRange g7 \<and> startIndex_m submap = (0, 0)) \<and>
         (startIndexInRange (setStartIndex g index) \<longleftrightarrow>
            0 \<le> fst index \<and> fst index < fst (size_m g) \<and>
            0 \<le> snd index \<and> snd index < snd (size_m g))"
proof (intro conjI impI)
  assume "setGeometry g len resolution position = Inr g1"
  from setGeometry_startIndex [OF this]
  show "startIndexInRange g1 \<longleftrightarrow> 1 \<le> fst (size_m g1) \<and> 1 \<le> snd (size_m g1)"
    by (auto simp: startIndexInRange_def)
next
  assume "move g target ri rs = Inr (moved, g2, ris, rss)"
  from move_startIndex [OF this] r show "startIndexInRange g2"
    by (simp add: startIndexInRange_def)
next
  assume "add_data g layer m = Inr g3"
  with r show "startIndexInRange g3"
    by (auto simp: add_data_def startIndexInRange_def split: if_splits)
next
  assume "add_value g layer x = Inr g4"
  with r show "startIndexInRange g4"
    by (auto simp: add_value_def add_data_def startIndexInRange_def split: if_splits)
next
  from r show "startIndexInRange (snd (erase g layer))"
    by (simp add: erase_def Let_def startIndexInRange_def)
next
  assume "clear g layer = Inr g5"
  with r show "startIndexInRange g5"
    by (auto simp: clear_def startIndexInRange_def split: option.splits)
next
  assume "clearBasic g = Inr g6"
  then have "clearLayers g (basicLayers_m g) = Inr g6" by (simp add: clearBasic_def)
  from clearLayers_frame [OF this] r show "startIndexInRange g6"
    by (simp add: startIndexInRange_def)
next
  from r show "startIndexInRange (clearAll g)"
    by (simp add: clearAll_def startIndexInRange_def)
next
  assume a: "getSubmap submapGeometry bufferRegionsForSubmap g center len = Inr (g7, submap, ok)"
  from getSubmap_frame [OF a] r show "startIndexInRange g7" by simp
  from getSubmap_frame [OF a] show "startIndex_m submap = (0, 0)" by simp
next
  show "startIndexInRange (setStartIndex g index) \<longleftrightarrow>
            0 \<le> fst index \<and> fst index < fst (size_m g) \<and>
            0 \<le> snd index \<and> snd index < snd (size_m g)"
    by (simp add: setStartIndex_def startIndexInRange_def)
qed

lemma exampleGrid_stays:
  "move exampleGrid (0, 0) [] [] = Inr (False, exampleGrid, [], [])"
  by (simp add: move_def moveAxis_def comp2_def getIndexShiftFromPositionShift_def
      getPositionShiftFromIndexShift_def c_round_def mapIndexWithinRange2_def
      mapIndexWithinRange_def getSize_def exampleGrid_def)

theorem startIndex_in_range_after_operations_witness:
  "startIndexInRange exampleGrid \<and>
   move exampleGrid (0, 0) [] [] = Inr (False, exampleGrid, [], []) \<and>
   startIndexInRange (snd (erase exampleGrid ''color'')) \<and>
   startIndexInRange (clearAll exampleGrid) \<and>
   startIndexInRange (setStartIndex exampleGrid (1, 2))"
proof -
  have r: "startIndexInRange exampleGrid"
    by (simp add: startIndexInRange_def exampleGrid_def)
  have z: "size_m exampleGrid = (2, 3)"
    by (simp add: exampleGrid_def)
  note t = startIndex_in_range_after_operations [OF r,
      where target = "(0, 0)" and ri = "[]" and rs = "[]" and moved = False
        and ?g2.0 = exampleGrid and ris = "[]" and rss = "[]" and layer = "''color''"
        and index = "(1, 2)"]
  note c2 = conjunct2
  have m: "startIndexInRange exampleGrid"
    by (rule t [THEN c2, THEN conjunct1, THEN mp]) (rule exampleGrid_stays)
  have e: "startIndexInRange (snd (erase exampleGrid ''color''))"
    by (rule t [THEN c2, THEN c2, THEN c2, THEN c2, THEN conjunct1])
  have c: "startIndexInRange (clearAll exampleGrid)"
    by (rule t [THEN c2, THEN c2, THEN c2, THEN c2, THEN c2, THEN c2, THEN c2, THEN conjunct1])
  have s: "startIndexInRange (setStartIndex exampleGrid (1, 2))"
    using t [THEN c2, THEN c2, THEN c2, THEN c2, THEN c2, THEN c2, THEN c2, THEN c2, THEN c2]
    by (simp add: z)
  show ?thesis using m exampleGrid_stays e c s by (intro conjI)
qed

text \<open>
  On the small grid, of size \<open>(2, 3)\<close>, \<^verbatim>\<open>setStartIndex\<close> with \<open>(15, 3)\<close> leaves a start
  index outside the size, and \<^verbatim>\<open>setGeometry\<close> with a length of a quarter of a cell
  leaves the size \<open>(0, 0)\<close>, which no start index is inside.
\<close>

theorem startIndex_out_of_range_counterexample:
  "startIndexInRange exampleGrid \<and>
   \<not> startIndexInRange (setStartIndex exampleGrid (15, 3)) \<and>
   map_sum id startIndexInRange (setGeometry exampleGrid (1 / 4, 1 / 4) 1 (0, 0)) = Inr False"
  by (simp add: startIndexInRange_def setStartIndex_def setGeometry_def roundedQuotient_def
      static_cast_int_def double_div_values double_mul_values c_round_def
      resize_def clearAll_def Let_def exampleGrid_def)

subsection \<open>A submap request outside the map\<close>

lemma insertData_empty_matrices:
  assumes "list_all (\<lambda>(layer, m). m = Matrix0) acc"
  shows "list_all (\<lambda>(layer, m). m = Matrix0)
           (foldl insertData acc (map (\<lambda>layer. (layer, Matrix0)) ls))"
  using assms
proof (induction ls arbitrary: acc)
  case Nil
  then show ?case by simp
next
  case (Cons layer ls)
  have "list_all (\<lambda>(layer, m). m = Matrix0) (insertData acc (layer, Matrix0))"
    using Cons.prems by (simp add: insertData_def)
  from Cons.IH [OF this] show ?case by simp
qed

lemma newGridMap_empty:
  "size_m (newGridMap ls) = (0, 0) \<and> layers_m (newGridMap ls) = ls \<and>
   list_all (\<lambda>(layer, m). m = Matrix0) (data_m (newGridMap ls))"
  using insertData_empty_matrices [of "[]" ls] by (simp add: newGridMap_def)

text \<open>
  C8. The verdict on the requested window is the flag of the constructor of
  \<^verbatim>\<open>SubmapGeometry\<close>, which by the spec is false when the window does not fit entirely
  inside the map. For every request whose window does not fit, under that contract of the
  constructor, \<^verbatim>\<open>getSubmap\<close> reports failure, leaves the source grid as it is and
  returns \<^verbatim>\<open>GridMap(layers_)\<close>: the map of size \<open>(0, 0)\<close> with the layers of the source,
  each with an empty buffer, so that no layer data is copied.
\<close>

theorem getSubmap_window_outside_map:
  assumes contract: "\<not> windowInsideMap g position len \<Longrightarrow>
                     snd (submapGeometry g position len) = False"
    and outside: "\<not> windowInsideMap g position len"
  shows "getSubmap submapGeometry bufferRegionsForSubmap g position len =
           Inr (g, newGridMap (layers_m g), False) \<and>
         size_m (newGridMap (layers_m g)) = (0, 0) \<and>
         layers_m (newGridMap (layers_m g)) = layers_m g \<and>
         list_all (\<lambda>(layer, m). m = Matrix0 \<and> rows m = 0 \<and> cols m = 0)
           (data_m (newGridMap (layers_m g)))"
proof -
  obtain si where "submapGeometry g position len = (si, False)"
    using contract [OF outside] by (cases "submapGeometry g position len") simp
  then have "getSubmap submapGeometry bufferRegionsForSubmap g position len =
           Inr (g, newGridMap (layers_m g), False)"
    by (simp add: getSubmap_def Let_def)
  moreover have "list_all (\<lambda>(layer, m). m = Matrix0 \<and> rows m = 0 \<and> cols m = 0)
           (data_m (newGridMap (layers_m g)))"
    using newGridMap_empty [of "layers_m g"]
    by (auto simp: list_all_iff Matrix0_def)
  ultimately show ?thesis using newGridMap_empty [of "layers_m g"] by simp
qed

theorem getSubmap_window_outside_map_witness:
  "\<not> windowInsideMap exampleGrid (5, 5) (1, 1) \<and>
   snd (windowSubmapGeometry exampleGrid (5, 5) (1, 1)) = False \<and>
   getSubmap windowSubmapGeometry (\<lambda>index submapSize bufferSize startIndex. None)
     exampleGrid (5, 5) (1, 1) =
     Inr (exampleGrid, newGridMap [''elevation'', ''color''], False)"
proof -
  have o: "\<not> windowInsideMap exampleGrid (5, 5) (1, 1)"
    by (simp add: windowInsideMap_def exampleGrid_def)
  have c: "snd (windowSubmapGeometry exampleGrid (5, 5) (1, 1)) = False"
    using o by (simp add: windowSubmapGeometry_def)
  have l: "layers_m exampleGrid = [''elevation'', ''color'']"
    by (simp add: exampleGrid_def)
  from getSubmap_window_outside_map [of exampleGrid "(5, 5)" "(1, 1)" windowSubmapGeometry
      "\<lambda>index submapSize bufferSize startIndex. None", OF c o, THEN conjunct1]
  have "getSubmap windowSubmapGeometry (\<lambda>index submapSize bufferSize startIndex. None)
     exampleGrid (5, 5) (1, 1) =
     Inr (exampleGrid, newGridMap [''elevation'', ''color''], False)"
    by (simp only: l)
  with o c show ?thesis by (intro conjI)
qed

subsection \<open>From an index to its position and back\<close>






end
